theory Spec2Isabelle
  imports Main "HOL-Library.Multiset"
begin

section \<open>JSON values\<close>

text \<open>
  The schema arrives as parsed JSON. Discriminant constants (\<open>const\<close>) are JSON
  primitives; for them JavaScript's \<open>!==\<close> is comparison of values. The parser
  never calculates with a constant: it tests its truthiness, compares it and
  prints it into an id. So a number is given by the text that \<open>String\<close> makes of
  it (\<open>5\<close>, \<open>1.5\<close>, \<open>1e+21\<close>), which identifies the number; zero is \<open>0\<close>.
  \<open>default\<close>, \<open>examples\<close> and \<open>enum\<close> may hold arrays and objects as well.
\<close>

datatype jsprim = JNull | JBool bool | JNum string | JStr string

datatype jsval = Prim jsprim | JArr "jsval list" | JObj "(string \<times> jsval) list"

text \<open>JavaScript truthiness: \<open>null\<close>, \<open>false\<close>, \<open>0\<close> and \<open>""\<close> are falsy, every
  array and object is truthy.\<close>

fun truthy_prim :: "jsprim \<Rightarrow> bool" where
  "truthy_prim JNull = False"
| "truthy_prim (JBool b) = b"
| "truthy_prim (JNum n) = (n \<noteq> ''0'')"
| "truthy_prim (JStr s) = (s \<noteq> [])"

fun truthy :: "jsval \<Rightarrow> bool" where
  "truthy (Prim p) = truthy_prim p"
| "truthy (JArr xs) = True"
| "truthy (JObj kvs) = True"

text \<open>An absent key reads as \<open>undefined\<close>, which is falsy.\<close>

definition truthy_opt :: "('a \<Rightarrow> bool) \<Rightarrow> 'a option \<Rightarrow> bool" where
  "truthy_opt t v = (case v of None \<Rightarrow> False | Some x \<Rightarrow> t x)"

text \<open>\<open>s || d\<close> for an optional string \<open>s\<close>: the empty string is falsy too.\<close>

definition str_or :: "string option \<Rightarrow> string \<Rightarrow> string" where
  "str_or s d = (case s of None \<Rightarrow> d | Some t \<Rightarrow> if t = [] then d else t)"

text \<open>A primitive inside a template literal.\<close>

fun to_string :: "jsprim \<Rightarrow> string" where
  "to_string JNull = ''null''"
| "to_string (JBool b) = (if b then ''true'' else ''false'')"
| "to_string (JNum n) = n"
| "to_string (JStr s) = s"

text \<open>\<open>Array.prototype.join\<close> on an array of strings.\<close>

fun join :: "string \<Rightarrow> string list \<Rightarrow> string" where
  "join sep [] = []"
| "join sep [x] = x"
| "join sep (x # y # ys) = x @ sep @ join sep (y # ys)"

section \<open>The input schema\<close>

text \<open>
  Modelled from the spec: the declarations of \<open>AirbyteProperty\<close> and \<open>AirbyteSpec\<close>
  (the module \<open>./types\<close> is not among the sources). The keys are those of the
  spec's input interface, which are the ones the parser reads, and \<open>const\<close>.

  \<open>AirbyteProperty\<close>: the scalar keys of a property node are a record, the three
  keys that hold further property nodes (\<open>oneOf\<close>, \<open>items\<close>, \<open>properties\<close>) are the
  arguments of the datatype. A \<open>properties\<close> object is the list of its entries in
  \<open>Object.entries\<close> order. \<open>None\<close> is an absent key. \<open>p_required\<close> is \<open>None\<close> when
  \<open>required\<close> is absent or not an array (the code tests \<open>Array.isArray\<close>). Keys
  that the output has under the same name carry the prefix \<open>p_\<close> here.
\<close>

record property_attrs =
  p_type :: "string option"
  p_title :: "string option"
  p_description :: "string option"
  p_order :: "int option"
  p_group :: "string option"
  airbyte_hidden :: "bool option"
  airbyte_secret :: "bool option"
  p_default :: "jsval option"
  p_examples :: "jsval option"
  p_pattern :: "string option"
  pattern_descriptor :: "string option"
  p_multiline :: "bool option"
  p_enum :: "jsval option"
  p_format :: "string option"
  p_minimum :: "int option"
  p_maximum :: "int option"
  always_show :: "bool option"
  display_type :: "string option"
  p_const :: "jsprim option"
  p_required :: "string list option"

datatype AirbyteProperty =
  AirbyteProperty
    (p_attrs: property_attrs)
    (oneOf: "AirbyteProperty list option")
    (items: "AirbyteProperty option")
    (properties: "(string \<times> AirbyteProperty) list option")

record spec_group =
  g_id :: string
  g_title :: "string option"

record AirbyteSpec =
  s_properties :: "(string \<times> AirbyteProperty) list option"
  s_required :: "string list option"
  groups :: "spec_group list option"

section \<open>The output tree\<close>

record const_option =
  co_value :: jsprim
  co_title :: jsprim
  co_description :: "string option"

text \<open>
  Modelled from the spec: the declarations of \<open>FormField\<close> and \<open>FieldGroup\<close> (module
  \<open>./types\<close>). The keys are those the three builders of the parser write.

  \<open>FormField\<close>: again the scalar keys are a record and the recursive key
  \<open>subFields\<close> is the argument of the datatype. A key that a builder does not write
  is \<open>None\<close>. \<open>id\<close>, \<open>type\<close>, \<open>default\<close> and \<open>enum\<close> are \<open>id_f\<close>, \<open>type_f\<close>,
  \<open>default_f\<close> and \<open>enum_f\<close>.
\<close>

record field_attrs =
  id_f :: string
  type_f :: "string option"
  path :: "string list"
  title :: string
  description :: "string option"
  required :: bool
  secret :: "bool option"
  hidden :: "bool option"
  default_f :: "jsval option"
  examples :: "jsval option"
  pattern :: "string option"
  patternDescriptor :: "string option"
  multiline :: "bool option"
  enum_f :: "jsval option"
  format :: "string option"
  minimum :: "int option"
  maximum :: "int option"
  alwaysShow :: "bool option"
  order :: "int option"
  group :: "string option"
  displayType :: "string option"
  constOptions :: "const_option list option"
  constKey :: "string option"
  itemType :: "string option"
  parentValue :: "jsprim option"

datatype FormField =
  FormField (attrs: field_attrs) (subFields: "FormField list option")

record FieldGroup =
  fg_id :: string
  fg_title :: "string option"
  fg_fields :: "FormField list"

section \<open>Errors\<close>

text \<open>The only exception the parser can raise is the \<open>TypeError\<close> of
  \<open>Object.entries(undefined)\<close>.\<close>

datatype error = TypeError

definition Object_entries :: "'a list option \<Rightarrow> error + 'a list" where
  "Object_entries obj = (case obj of None \<Rightarrow> Inl TypeError | Some es \<Rightarrow> Inr es)"

section \<open>Sorting\<close>

text \<open>
  \<open>String.prototype.localeCompare\<close> is the collation of the host's locale; it is a
  parameter \<open>lc\<close> of the embedding (negative, zero or positive).

  \<open>Array.prototype.sort\<close> is stable. For a consistent comparator the result is the
  one stable ascending arrangement of the list, whatever the engine; the insertion
  sort below computes it. The comparator of \<open>sortOneOfSubFields\<close> is not
  consistent, and then the standard leaves the order to the engine: the model is
  the engines' answer where the subfields of each parent value stand together
  (variants with pairwise distinct discriminant values), and nothing is proved from
  it for other lists but the run of one three-element list.
\<close>

type_synonym collation = "string \<Rightarrow> string \<Rightarrow> int"

fun insert_by :: "('a \<Rightarrow> 'a \<Rightarrow> int) \<Rightarrow> 'a \<Rightarrow> 'a list \<Rightarrow> 'a list" where
  "insert_by cmp x [] = [x]"
| "insert_by cmp x (y # ys) =
     (if cmp x y \<le> 0 then x # y # ys else y # insert_by cmp x ys)"

definition js_sort :: "('a \<Rightarrow> 'a \<Rightarrow> int) \<Rightarrow> 'a list \<Rightarrow> 'a list" where
  "js_sort cmp xs = foldr (insert_by cmp) xs []"

text \<open>\<open>a.path[a.path.length - 1] || ''\<close>\<close>

definition fieldName :: "FormField \<Rightarrow> string" where
  "fieldName a = (if path (attrs a) = [] then [] else last (path (attrs a)))"

text \<open>The comparator of \<open>sortFieldsByAirbyteRules\<close>.\<close>

definition airbyteRules :: "collation \<Rightarrow> FormField \<Rightarrow> FormField \<Rightarrow> int" where
  "airbyteRules lc a b =
     (let aHasOrder = (order (attrs a) \<noteq> None);
          bHasOrder = (order (attrs b) \<noteq> None)
      in if aHasOrder \<and> bHasOrder then the (order (attrs a)) - the (order (attrs b))
         else if aHasOrder \<and> \<not> bHasOrder then - 1
         else if \<not> aHasOrder \<and> bHasOrder then 1
         else if required (attrs a) \<and> \<not> required (attrs b) then - 1
         else if \<not> required (attrs a) \<and> required (attrs b) then 1
         else lc (fieldName a) (fieldName b))"

definition sortFieldsByAirbyteRules :: "collation \<Rightarrow> FormField list \<Rightarrow> FormField list" where
  "sortFieldsByAirbyteRules lc fs = js_sort (airbyteRules lc) fs"

text \<open>The comparator of \<open>sortOneOfSubFields\<close>: zero across different parent values,
  the same rules (written out a second time in the source) within one.\<close>

definition oneOfRules :: "collation \<Rightarrow> FormField \<Rightarrow> FormField \<Rightarrow> int" where
  "oneOfRules lc a b =
     (if parentValue (attrs a) \<noteq> parentValue (attrs b) then 0 else airbyteRules lc a b)"

definition sortOneOfSubFields :: "collation \<Rightarrow> FormField list \<Rightarrow> FormField list" where
  "sortOneOfSubFields lc fs = js_sort (oneOfRules lc) fs"

section \<open>The parser\<close>

definition parseBasicField ::
  "string \<Rightarrow> AirbyteProperty \<Rightarrow> string list \<Rightarrow> bool \<Rightarrow> FormField" where
  "parseBasicField key prop pth isRequired =
     FormField
       \<lparr> id_f = join ''.'' pth,
         type_f = p_type (p_attrs prop),
         path = pth,
         title = str_or (p_title (p_attrs prop)) key,
         description = p_description (p_attrs prop),
         required = isRequired,
         secret = airbyte_secret (p_attrs prop),
         hidden = airbyte_hidden (p_attrs prop),
         default_f = p_default (p_attrs prop),
         examples = p_examples (p_attrs prop),
         pattern = p_pattern (p_attrs prop),
         patternDescriptor = pattern_descriptor (p_attrs prop),
         multiline = p_multiline (p_attrs prop),
         enum_f = p_enum (p_attrs prop),
         format = p_format (p_attrs prop),
         minimum = p_minimum (p_attrs prop),
         maximum = p_maximum (p_attrs prop),
         alwaysShow = always_show (p_attrs prop),
         order = p_order (p_attrs prop),
         group = p_group (p_attrs prop),
         displayType = None,
         constOptions = None,
         constKey = None,
         itemType = None,
         parentValue = None \<rparr>
       None"

text \<open>\<open>subField.parentValue = constValue; subField.id = `...`\<close>\<close>

definition tag_subField :: "string list \<Rightarrow> jsprim \<Rightarrow> string \<Rightarrow> FormField \<Rightarrow> FormField" where
  "tag_subField pth constValue propKey subField =
     FormField
       ((attrs subField)
          \<lparr> parentValue := Some constValue,
            id_f := join ''.'' pth @ ''.'' @ to_string constValue @ ''.'' @ propKey \<rparr>)
       (subFields subField)"

text \<open>The three accumulators of \<open>parseOneOfField\<close>, and what one variant with a
  discriminant adds to them.\<close>

record oneOf_acc =
  acc_subFields :: "FormField list"
  acc_constOptions :: "const_option list"
  acc_constKey :: "string option"

definition empty_acc :: oneOf_acc where
  "empty_acc = \<lparr> acc_subFields = [], acc_constOptions = [], acc_constKey = None \<rparr>"

definition add_option ::
  "property_attrs \<Rightarrow> string \<Rightarrow> jsprim \<Rightarrow> FormField list \<Rightarrow> oneOf_acc \<Rightarrow> oneOf_acc" where
  "add_option a fieldConstKey constValue subs acc =
     \<lparr> acc_subFields = acc_subFields acc @ subs,
       acc_constOptions = acc_constOptions acc @
         [\<lparr> co_value = constValue,
            co_title = (case p_title a of
                          None \<Rightarrow> constValue
                        | Some t \<Rightarrow> if t = [] then constValue else JStr t),
            co_description = p_description a \<rparr>],
       acc_constKey =
         (if acc_constKey acc = None \<or> acc_constKey acc = Some []
          then Some fieldConstKey else acc_constKey acc) \<rparr>"

text \<open>The object literals returned by \<open>parseOneOfField\<close> and \<open>parseArrayField\<close>.\<close>

definition oneOfNode ::
  "collation \<Rightarrow> string \<Rightarrow> property_attrs \<Rightarrow> string list \<Rightarrow> bool \<Rightarrow> oneOf_acc \<Rightarrow> FormField" where
  "oneOfNode lc key a pth isRequired acc =
     FormField
       \<lparr> id_f = join ''.'' pth,
         type_f = Some ''object'',
         path = pth,
         title = str_or (p_title a) key,
         description = p_description a,
         required = isRequired,
         secret = None,
         hidden = airbyte_hidden a,
         default_f = None,
         examples = None,
         pattern = None,
         patternDescriptor = None,
         multiline = None,
         enum_f = None,
         format = None,
         minimum = None,
         maximum = None,
         alwaysShow = None,
         order = p_order a,
         group = p_group a,
         displayType = Some (str_or (display_type a) ''dropdown''),
         constOptions = Some (acc_constOptions acc),
         constKey = acc_constKey acc,
         itemType = None,
         parentValue = None \<rparr>
       (Some (sortOneOfSubFields lc (acc_subFields acc)))"

definition arrayNode ::
  "string \<Rightarrow> property_attrs \<Rightarrow> AirbyteProperty option \<Rightarrow> string list \<Rightarrow> bool
    \<Rightarrow> FormField list \<Rightarrow> FormField" where
  "arrayNode key a it pth isRequired subs =
     FormField
       \<lparr> id_f = join ''.'' pth,
         type_f = Some ''array'',
         path = pth,
         title = str_or (p_title a) key,
         description = p_description a,
         required = isRequired,
         secret = None,
         hidden = airbyte_hidden a,
         default_f = Some (if truthy_opt truthy (p_default a) then the (p_default a)
                           else JArr []),
         examples = None,
         pattern = None,
         patternDescriptor = None,
         multiline = None,
         enum_f = None,
         format = None,
         minimum = None,
         maximum = None,
         alwaysShow = None,
         order = p_order a,
         group = p_group a,
         displayType = None,
         constOptions = None,
         constKey = None,
         itemType = Some (str_or (case it of None \<Rightarrow> None | Some i \<Rightarrow> p_type (p_attrs i))
                            ''string''),
         parentValue = None \<rparr>
       (Some subs)"

text \<open>An exception ends the whole parse: a result is \<open>Inl\<close> as soon as a part is.\<close>

definition map_result :: "('a \<Rightarrow> 'b) \<Rightarrow> error + 'a \<Rightarrow> error + 'b" where
  "map_result f r = (case r of Inl e \<Rightarrow> Inl e | Inr x \<Rightarrow> Inr (f x))"

definition push_all :: "error + 'a list \<Rightarrow> error + 'a list \<Rightarrow> error + 'a list" where
  "push_all r k =
     (case r of
        Inl e \<Rightarrow> Inl e
      | Inr xs \<Rightarrow> (case k of Inl e \<Rightarrow> Inl e | Inr ys \<Rightarrow> Inr (xs @ ys)))"

text \<open>
  The five mutually recursive functions. \<open>parseProperties\<close> takes the entries of
  its \<open>properties\<close> argument; \<open>oneOfOptions\<close> is the \<open>forEach\<close> over the variants of
  a oneOf, \<open>optionSubFields\<close> the inner \<open>forEach\<close> over one variant's properties.
\<close>

function (sequential) parseProperties ::
    "collation \<Rightarrow> (string \<times> AirbyteProperty) list \<Rightarrow> string list \<Rightarrow> string list
      \<Rightarrow> error + FormField list"
  and parseOneOfField ::
    "collation \<Rightarrow> string \<Rightarrow> AirbyteProperty \<Rightarrow> string list \<Rightarrow> bool \<Rightarrow> error + FormField"
  and oneOfOptions ::
    "collation \<Rightarrow> string list \<Rightarrow> AirbyteProperty list \<Rightarrow> oneOf_acc \<Rightarrow> error + oneOf_acc"
  and optionSubFields ::
    "collation \<Rightarrow> string list \<Rightarrow> jsprim \<Rightarrow> string \<Rightarrow> string list
      \<Rightarrow> (string \<times> AirbyteProperty) list \<Rightarrow> error + FormField list"
  and parseArrayField ::
    "collation \<Rightarrow> string \<Rightarrow> AirbyteProperty \<Rightarrow> string list \<Rightarrow> bool \<Rightarrow> error + FormField"
where
  "parseProperties lc [] parentPath req = Inr []"
| "parseProperties lc ((key, AirbyteProperty a oo it ps) # rest) parentPath req =
     (if truthy_opt id (airbyte_hidden a) then parseProperties lc rest parentPath req
      else
        push_all
          (if oo \<noteq> None then
             map_result (\<lambda>f. [f])
               (parseOneOfField lc key (AirbyteProperty a oo it ps) (parentPath @ [key])
                  (key \<in> set req))
           else if p_type a = Some ''array'' \<and> it \<noteq> None then
             map_result (\<lambda>f. [f])
               (parseArrayField lc key (AirbyteProperty a oo it ps) (parentPath @ [key])
                  (key \<in> set req))
           else
             (case ps of
                Some nested \<Rightarrow>
                  if p_type a = Some ''object'' then
                    parseProperties lc nested (parentPath @ [key])
                      (case p_required a of None \<Rightarrow> [] | Some r \<Rightarrow> r)
                  else
                    Inr [parseBasicField key (AirbyteProperty a oo it ps) (parentPath @ [key])
                           (key \<in> set req)]
              | None \<Rightarrow>
                  Inr [parseBasicField key (AirbyteProperty a oo it ps) (parentPath @ [key])
                         (key \<in> set req)]))
          (parseProperties lc rest parentPath req))"
| "parseOneOfField lc key (AirbyteProperty a oo it ps) pth isRequired =
     map_result (oneOfNode lc key a pth isRequired)
       (case oo of
          None \<Rightarrow> Inr empty_acc
        | Some options \<Rightarrow> oneOfOptions lc pth options empty_acc)"
| "oneOfOptions lc pth [] acc = Inr acc"
| "oneOfOptions lc pth (AirbyteProperty a oo it ps # options) acc =
     (case ps of
        None \<Rightarrow> Inl TypeError   \<comment> \<open>\<open>Object.entries(option.properties)\<close> throws\<close>
      | Some entries \<Rightarrow>
          (case find (\<lambda>kp. truthy_opt truthy_prim (p_const (p_attrs (snd kp)))) entries of
             None \<Rightarrow> oneOfOptions lc pth options acc
           | Some constField \<Rightarrow>
               (case optionSubFields lc pth (the (p_const (p_attrs (snd constField))))
                       (fst constField) (case p_required a of None \<Rightarrow> [] | Some r \<Rightarrow> r)
                       entries of
                  Inl e \<Rightarrow> Inl e
                | Inr subs \<Rightarrow>
                    oneOfOptions lc pth options
                      (add_option a (fst constField)
                         (the (p_const (p_attrs (snd constField)))) subs acc))))"
| "optionSubFields lc pth constValue fieldConstKey optionRequired [] = Inr []"
| "optionSubFields lc pth constValue fieldConstKey optionRequired
       ((propKey, AirbyteProperty a oo it ps) # rest) =
     (if propKey = fieldConstKey
      then optionSubFields lc pth constValue fieldConstKey optionRequired rest
      else
        push_all
          (map_result (\<lambda>subField. [tag_subField pth constValue propKey subField])
             (if oo \<noteq> None then
                parseOneOfField lc propKey (AirbyteProperty a oo it ps) (pth @ [propKey])
                  (propKey \<in> set optionRequired)
              else
                Inr (parseBasicField propKey (AirbyteProperty a oo it ps) (pth @ [propKey])
                       (propKey \<in> set optionRequired))))
          (optionSubFields lc pth constValue fieldConstKey optionRequired rest))"
| "parseArrayField lc key (AirbyteProperty a oo it ps) pth isRequired =
     map_result (arrayNode key a it pth isRequired)
       (case it of
          None \<Rightarrow> Inr []
        | Some (AirbyteProperty ia ioo iit ips) \<Rightarrow>
            (case ips of
               None \<Rightarrow> Inr []
             | Some itemProps \<Rightarrow>
                 if p_type ia = Some ''object'' then
                   map_result (sortFieldsByAirbyteRules lc)
                     (parseProperties lc itemProps (pth @ [''0''])
                        (case p_required ia of None \<Rightarrow> [] | Some r \<Rightarrow> r))
                 else Inr []))"
  by pat_completeness auto

termination
  by (relation "measure
        (case_sum
           (case_sum (\<lambda>(lc, ps, parentPath, req). size_list (size_prod (\<lambda>_. 0) size) ps)
                     (\<lambda>(lc, key, prop, pth, isRequired). size prop))
           (case_sum (\<lambda>(lc, pth, options, acc). size_list size options)
              (case_sum (\<lambda>(lc, pth, constValue, fieldConstKey, optionRequired, ps).
                           size_list (size_prod (\<lambda>_. 0) size) ps)
                        (\<lambda>(lc, key, prop, pth, isRequired). size prop))))")
     auto

definition parseAirbyteSpec :: "collation \<Rightarrow> AirbyteSpec \<Rightarrow> error + FieldGroup list" where
  "parseAirbyteSpec lc spec =
     (case Object_entries (s_properties spec) of
        Inl e \<Rightarrow> Inl e
      | Inr entries \<Rightarrow>
          (case parseProperties lc entries []
                  (case s_required spec of None \<Rightarrow> [] | Some r \<Rightarrow> r) of
             Inl e \<Rightarrow> Inl e
           | Inr allFields \<Rightarrow>
               (case groups spec of
                  None \<Rightarrow>
                    Inr [\<lparr> fg_id = ''default'', fg_title = None,
                           fg_fields = sortFieldsByAirbyteRules lc allFields \<rparr>]
                | Some gs \<Rightarrow>
                    Inr (map (\<lambda>g. \<lparr> fg_id = g_id g, fg_title = g_title g,
                                     fg_fields = sortFieldsByAirbyteRules lc
                                       (filter (\<lambda>f. group (attrs f) = Some (g_id g)) allFields) \<rparr>)
                           gs))))"

section \<open>Notions used to state the properties\<close>

text \<open>The subfields of a node, empty for a node without the key.\<close>

definition subFields_of :: "FormField \<Rightarrow> FormField list" where
  "subFields_of f = (case subFields f of None \<Rightarrow> [] | Some fs \<Rightarrow> fs)"

text \<open>The subfields of one discriminant group, in list order.\<close>

definition group_of :: "jsprim \<Rightarrow> FormField list \<Rightarrow> FormField list" where
  "group_of v fs = filter (\<lambda>f. parentValue (attrs f) = Some v) fs"

text \<open>The ids of the emitted nodes that carry a set \<open>hidden\<close> flag.\<close>

definition hidden_ids :: "FormField list \<Rightarrow> string list" where
  "hidden_ids fs = map (\<lambda>f. id_f (attrs f)) (filter (\<lambda>f. hidden (attrs f) = Some True) fs)"



text \<open>Every variant of every \<open>oneOf\<close> in the node has a \<open>properties\<close> mapping.\<close>

fun variants_ok :: "AirbyteProperty \<Rightarrow> bool" where
  "variants_ok (AirbyteProperty a oo it ps) =
     ((case oo of
         None \<Rightarrow> True
       | Some options \<Rightarrow> \<forall>v \<in> set options. properties v \<noteq> None \<and> variants_ok v) \<and>
      (case it of None \<Rightarrow> True | Some i \<Rightarrow> variants_ok i) \<and>
      (case ps of
         None \<Rightarrow> True
       | Some entries \<Rightarrow> \<forall>kp \<in> set entries. variants_ok (snd kp)))"

text \<open>The discriminant of a variant: its first property with a truthy \<open>const\<close>.\<close>

definition constField_of :: "AirbyteProperty \<Rightarrow> (string \<times> AirbyteProperty) option" where
  "constField_of v =
     (case properties v of
        None \<Rightarrow> None
      | Some entries \<Rightarrow>
          find (\<lambda>kp. truthy_opt truthy_prim (p_const (p_attrs (snd kp)))) entries)"

text \<open>The discriminant values of the variants that have one, in declaration
  order.\<close>

definition discriminant_values :: "AirbyteProperty list \<Rightarrow> jsprim list" where
  "discriminant_values options =
     map (\<lambda>constField. the (p_const (p_attrs (snd constField))))
       (List.map_filter constField_of options)"

text \<open>
  A collation is consistent when it compares any two strings one way or the other
  and does so transitively.
\<close>

definition consistent :: "collation \<Rightarrow> bool" where
  "consistent lc \<longleftrightarrow>
     (\<forall>a b. lc a b \<le> 0 \<or> lc b a \<le> 0) \<and>
     (\<forall>a b c. lc a b \<le> 0 \<and> lc b c \<le> 0 \<longrightarrow> lc a c \<le> 0)"

text \<open>
  \<open>ys\<close> is the sorted version of \<open>xs\<close>: it is in ascending order of the sibling
  rules, it has the fields of \<open>xs\<close>, each as often, and fields that the rules tie
  stand in the order they have in \<open>xs\<close>.
\<close>

definition tied :: "collation \<Rightarrow> FormField \<Rightarrow> FormField \<Rightarrow> bool" where
  "tied lc a b \<longleftrightarrow> airbyteRules lc a b \<le> 0 \<and> airbyteRules lc b a \<le> 0"

definition sorted_version :: "collation \<Rightarrow> FormField list \<Rightarrow> FormField list \<Rightarrow> bool" where
  "sorted_version lc xs ys \<longleftrightarrow>
     sorted_wrt (\<lambda>a b. airbyteRules lc a b \<le> 0) ys \<and>
     mset ys = mset xs \<and>
     (\<forall>z \<in> set xs. filter (tied lc z) ys = filter (tied lc z) xs)"

text \<open>
  A place in the input schema is a list of steps from a property node: into one of
  its \<open>properties\<close> by key, into its \<open>items\<close>, or into one of its \<open>oneOf\<close> variants.
  \<open>at p ss q\<close>: the steps \<open>ss\<close> lead from \<open>p\<close> to \<open>q\<close>; \<open>at_props\<close> starts from a
  \<open>properties\<close> mapping. \<open>segments\<close> are the path segments of a place: the keys, and
  the placeholder \<open>0\<close> for an item level; a variant is an alternative, not a level.
  The nesting depth of a place is the number of its segments.
\<close>

datatype step = Key string | Item | Variant

fun segments :: "step list \<Rightarrow> string list" where
  "segments [] = []"
| "segments (Key k # ss) = k # segments ss"
| "segments (Item # ss) = ''0'' # segments ss"
| "segments (Variant # ss) = segments ss"

fun at :: "AirbyteProperty \<Rightarrow> step list \<Rightarrow> AirbyteProperty \<Rightarrow> bool" where
  "at p [] q = (q = p)"
| "at p (Key k # ss) q =
     (case properties p of
        None \<Rightarrow> False
      | Some entries \<Rightarrow> \<exists>kp \<in> set entries. fst kp = k \<and> at (snd kp) ss q)"
| "at p (Item # ss) q = (case items p of None \<Rightarrow> False | Some i \<Rightarrow> at i ss q)"
| "at p (Variant # ss) q =
     (case oneOf p of None \<Rightarrow> False | Some options \<Rightarrow> \<exists>v \<in> set options. at v ss q)"

definition at_props :: "(string \<times> AirbyteProperty) list \<Rightarrow> step list \<Rightarrow> AirbyteProperty \<Rightarrow> bool" where
  "at_props entries ss q =
     (case ss of
        Key k # ss' \<Rightarrow> \<exists>kp \<in> set entries. fst kp = k \<and> at (snd kp) ss' q
      | _ \<Rightarrow> False)"

text \<open>A node of the output and all the nodes below it.\<close>

fun all_nodes :: "FormField \<Rightarrow> FormField list" where
  "all_nodes (FormField a sf) =
     FormField a sf # (case sf of None \<Rightarrow> [] | Some fs \<Rightarrow> concat (map all_nodes fs))"

text \<open>The keys that a node copies from the property it is built from, whichever
  builder makes it.\<close>

definition built_from :: "FormField \<Rightarrow> AirbyteProperty \<Rightarrow> bool" where
  "built_from n q \<longleftrightarrow>
     order (attrs n) = p_order (p_attrs q) \<and> group (attrs n) = p_group (p_attrs q) \<and>
     description (attrs n) = p_description (p_attrs q) \<and>
     hidden (attrs n) = airbyte_hidden (p_attrs q)"

text \<open>All property keys of a schema, and two collations that answer alike on a
  list of keys.\<close>

fun keys_of :: "AirbyteProperty \<Rightarrow> string list" where
  "keys_of (AirbyteProperty a oo it ps) =
     (case oo of None \<Rightarrow> [] | Some options \<Rightarrow> concat (map keys_of options)) @
     (case it of None \<Rightarrow> [] | Some i \<Rightarrow> keys_of i) @
     (case ps of
        None \<Rightarrow> []
      | Some entries \<Rightarrow> map fst entries @ concat (map (\<lambda>kp. keys_of (snd kp)) entries))"

definition keys_props :: "(string \<times> AirbyteProperty) list \<Rightarrow> string list" where
  "keys_props entries = map fst entries @ concat (map (\<lambda>kp. keys_of (snd kp)) entries)"

definition agree_on :: "string list \<Rightarrow> collation \<Rightarrow> collation \<Rightarrow> bool" where
  "agree_on ks lc lc' \<longleftrightarrow> (\<forall>a \<in> set ks. \<forall>b \<in> set ks. lc a b = lc' a b)"

section \<open>Example schemas\<close>

text \<open>One collation to run the examples with: comparison by character codes.\<close>

fun codepoint_compare :: "string \<Rightarrow> string \<Rightarrow> int" where
  "codepoint_compare [] [] = 0"
| "codepoint_compare [] (y # ys) = - 1"
| "codepoint_compare (x # xs) [] = 1"
| "codepoint_compare (x # xs) (y # ys) =
     (if (of_char x :: nat) < of_char y then - 1
      else if (of_char y :: nat) < of_char x then 1
      else codepoint_compare xs ys)"

definition no_attrs :: property_attrs where
  "no_attrs =
     \<lparr> p_type = None, p_title = None, p_description = None, p_order = None,
       p_group = None, airbyte_hidden = None, airbyte_secret = None, p_default = None,
       p_examples = None, p_pattern = None, pattern_descriptor = None, p_multiline = None,
       p_enum = None, p_format = None, p_minimum = None, p_maximum = None,
       always_show = None, display_type = None, p_const = None, p_required = None \<rparr>"

definition leaf :: "string \<Rightarrow> AirbyteProperty" where
  "leaf t = AirbyteProperty (no_attrs\<lparr>p_type := Some t\<rparr>) None None None"

definition ordered_leaf :: "int \<Rightarrow> AirbyteProperty" where
  "ordered_leaf n =
     AirbyteProperty (no_attrs\<lparr>p_type := Some ''string'', p_order := Some n\<rparr>) None None None"

definition grouped_leaf :: "string \<Rightarrow> AirbyteProperty" where
  "grouped_leaf g =
     AirbyteProperty (no_attrs\<lparr>p_type := Some ''string'', p_group := Some g\<rparr>) None None None"

definition hidden_leaf :: AirbyteProperty where
  "hidden_leaf =
     AirbyteProperty (no_attrs\<lparr>p_type := Some ''string'', airbyte_hidden := Some True\<rparr>)
       None None None"

definition const_leaf :: "string \<Rightarrow> AirbyteProperty" where
  "const_leaf v =
     AirbyteProperty (no_attrs\<lparr>p_type := Some ''string'', p_const := Some (JStr v)\<rparr>)
       None None None"

definition variant :: "(string \<times> AirbyteProperty) list \<Rightarrow> AirbyteProperty" where
  "variant entries =
     AirbyteProperty (no_attrs\<lparr>p_type := Some ''object''\<rparr>) None None (Some entries)"

definition oneOf_prop :: "AirbyteProperty list \<Rightarrow> AirbyteProperty" where
  "oneOf_prop options =
     AirbyteProperty (no_attrs\<lparr>p_type := Some ''object''\<rparr>) (Some options) None None"

definition object_prop :: "string list \<Rightarrow> (string \<times> AirbyteProperty) list \<Rightarrow> AirbyteProperty" where
  "object_prop req entries =
     AirbyteProperty (no_attrs\<lparr>p_type := Some ''object'', p_required := Some req\<rparr>)
       None None (Some entries)"

definition array_prop :: "AirbyteProperty \<Rightarrow> AirbyteProperty" where
  "array_prop item =
     AirbyteProperty (no_attrs\<lparr>p_type := Some ''array''\<rparr>) None (Some item) None"

text \<open>A hidden top-level property and a hidden property inside a oneOf variant.\<close>

definition hidden_spec :: AirbyteSpec where
  "hidden_spec =
     \<lparr> s_properties = Some
         [(''internal'', hidden_leaf),
          (''ssl_mode'', oneOf_prop
             [variant [(''mode'', const_leaf ''verify-ca''), (''client_key'', hidden_leaf)]])],
       s_required = None, groups = None \<rparr>"

text \<open>A oneOf whose only variant has no \<open>properties\<close>.\<close>

definition no_properties_variant_spec :: AirbyteSpec where
  "no_properties_variant_spec =
     \<lparr> s_properties = Some [(''ssl_mode'', oneOf_prop [leaf ''object''])],
       s_required = None, groups = None \<rparr>"

text \<open>A variant without a discriminant beside a well-formed one, and an array
  without an item schema.\<close>

definition degraded_spec :: AirbyteSpec where
  "degraded_spec =
     \<lparr> s_properties = Some
         [(''ssl_mode'', oneOf_prop
             [variant [(''password'', leaf ''string'')],
              variant [(''mode'', const_leaf ''disable'')]]),
          (''tags'', leaf ''array'')],
       s_required = None, groups = None \<rparr>"

definition host_port_dbname_spec :: AirbyteSpec where
  "host_port_dbname_spec =
     \<lparr> s_properties = Some
         [(''host'', leaf ''string''), (''port'', leaf ''integer''), (''dbname'', leaf ''string'')],
       s_required = Some [''host'', ''dbname''], groups = None \<rparr>"


text \<open>Two variants with the same discriminant value around a third one, and the
  subfields of that oneOf in encounter order.\<close>

definition repeated_discriminant_prop :: AirbyteProperty where
  "repeated_discriminant_prop = oneOf_prop
     [variant [(''mode'', const_leaf ''a''), (''p1'', ordered_leaf 5)],
      variant [(''mode'', const_leaf ''b''), (''q'', leaf ''string'')],
      variant [(''mode'', const_leaf ''a''), (''p2'', ordered_leaf 1)]]"

definition repeated_discriminant_subFields :: "FormField list" where
  "repeated_discriminant_subFields =
     [tag_subField [''u''] (JStr ''a'') ''p1''
        (parseBasicField ''p1'' (ordered_leaf 5) [''u'', ''p1''] False),
      tag_subField [''u''] (JStr ''b'') ''q''
        (parseBasicField ''q'' (leaf ''string'') [''u'', ''q''] False),
      tag_subField [''u''] (JStr ''a'') ''p2''
        (parseBasicField ''p2'' (ordered_leaf 1) [''u'', ''p2''] False)]"

definition grouped_spec :: AirbyteSpec where
  "grouped_spec =
     \<lparr> s_properties = Some
         [(''x'', grouped_leaf ''A''), (''y'', grouped_leaf ''B''), (''z'', leaf ''string'')],
       s_required = None,
       groups = Some [\<lparr> g_id = ''A'', g_title = None \<rparr>, \<lparr> g_id = ''B'', g_title = None \<rparr>] \<rparr>"



definition streams_prop :: AirbyteProperty where
  "streams_prop =
     array_prop (object_prop [''name'']
       [(''format'', leaf ''string''), (''name'', leaf ''string'')])"

text \<open>The collation that turns \<open>codepoint_compare\<close> round.\<close>

definition reverse_compare :: "string \<Rightarrow> string \<Rightarrow> int" where
  "reverse_compare a b = codepoint_compare b a"

definition grouped_ordered_leaf :: "string \<Rightarrow> int \<Rightarrow> AirbyteProperty" where
  "grouped_ordered_leaf g n =
     AirbyteProperty
       (no_attrs\<lparr>p_type := Some ''string'', p_order := Some n, p_group := Some g\<rparr>)
       None None None"

definition const_prim_leaf :: "jsprim \<Rightarrow> AirbyteProperty" where
  "const_prim_leaf v = AirbyteProperty (no_attrs\<lparr>p_const := Some v\<rparr>) None None None"

definition variant_req :: "string list \<Rightarrow> (string \<times> AirbyteProperty) list \<Rightarrow> AirbyteProperty" where
  "variant_req req entries =
     AirbyteProperty (no_attrs\<lparr>p_type := Some ''object'', p_required := Some req\<rparr>)
       None None (Some entries)"

text \<open>Groups A and B, two fields tagged A declared in descending \<open>order\<close>, one
  tagged B, one tagged with an undeclared group and one untagged.\<close>

definition two_in_group_spec :: AirbyteSpec where
  "two_in_group_spec =
     \<lparr> s_properties = Some
         [(''x2'', grouped_ordered_leaf ''A'' 2), (''y'', grouped_leaf ''B''),
          (''x1'', grouped_ordered_leaf ''A'' 1), (''w'', grouped_leaf ''C''),
          (''z'', leaf ''string'')],
       s_required = None,
       groups = Some [\<lparr> g_id = ''A'', g_title = None \<rparr>, \<lparr> g_id = ''B'', g_title = None \<rparr>] \<rparr>"

text \<open>Two variants with two subfields each, declared against the sibling order.\<close>

definition two_by_two_prop :: AirbyteProperty where
  "two_by_two_prop = oneOf_prop
     [variant [(''mode'', const_leaf ''a''), (''a2'', ordered_leaf 2), (''a1'', ordered_leaf 1)],
      variant_req [''b_req'']
        [(''mode'', const_leaf ''b''), (''b_opt'', leaf ''string''), (''b_req'', leaf ''string'')]]"


definition number_and_text_prop :: AirbyteProperty where
  "number_and_text_prop = oneOf_prop
     [variant [(''kind'', const_prim_leaf (JNum ''5'')), (''p'', leaf ''string'')],
      variant [(''kind'', const_prim_leaf (JStr ''5'')), (''p'', leaf ''string'')]]"

text \<open>An array of object items and a plain object as properties of a oneOf
  variant.\<close>

definition array_in_variant_prop :: AirbyteProperty where
  "array_in_variant_prop = oneOf_prop
     [variant [(''mode'', const_leaf ''a''), (''streams'', streams_prop)]]"

definition object_in_variant_prop :: AirbyteProperty where
  "object_in_variant_prop = oneOf_prop
     [variant [(''mode'', const_leaf ''a''),
               (''bucket'', object_prop [''name''] [(''name'', leaf ''string'')])]]"

text \<open>A oneOf inside the item object of an array.\<close>

definition deep_spec :: AirbyteSpec where
  "deep_spec =
     \<lparr> s_properties = Some
         [(''streams'', array_prop (object_prop []
             [(''auth'', oneOf_prop
                 [variant [(''mode'', const_leaf ''basic''), (''user'', leaf ''string'')]])]))],
       s_required = None, groups = None \<rparr>"

section \<open>Sorting: auxiliary facts\<close>

lemma set_insert_by: "set (insert_by cmp x ys) = insert x (set ys)"
  by (induction ys) auto

lemma set_js_sort: "set (js_sort cmp xs) = set xs"
  by (induction xs) (auto simp: js_sort_def set_insert_by)

lemma js_sort_Nil: "js_sort cmp [] = []"
  by (simp add: js_sort_def)

lemma js_sort_Cons: "js_sort cmp (x # xs) = insert_by cmp x (js_sort cmp xs)"
  by (simp add: js_sort_def)

text \<open>For a comparator that is total and transitive, \<open>js_sort\<close> returns a list in
  ascending order.\<close>

lemma sorted_insert_by:
  assumes "\<And>a b. cmp a b \<le> 0 \<or> cmp b a \<le> 0"
      and "\<And>a b c. cmp a b \<le> 0 \<Longrightarrow> cmp b c \<le> 0 \<Longrightarrow> cmp a c \<le> 0"
      and "sorted_wrt (\<lambda>a b. cmp a b \<le> 0) ys"
  shows "sorted_wrt (\<lambda>a b. cmp a b \<le> 0) (insert_by cmp x ys)"
  using assms(3)
proof (induction ys)
  case Nil
  then show ?case by simp
next
  case (Cons y ys)
  show ?case
  proof (cases "cmp x y \<le> 0")
    case True
    then have "\<forall>z \<in> set ys. cmp x z \<le> 0"
      using Cons.prems assms(2) by auto
    with True Cons.prems show ?thesis by simp
  next
    case False
    then have "cmp y x \<le> 0" using assms(1) [of x y] by simp
    with False Cons show ?thesis by (auto simp: set_insert_by)
  qed
qed

lemma sorted_js_sort:
  assumes "\<And>a b. cmp a b \<le> 0 \<or> cmp b a \<le> 0"
      and "\<And>a b c. cmp a b \<le> 0 \<Longrightarrow> cmp b c \<le> 0 \<Longrightarrow> cmp a c \<le> 0"
  shows "sorted_wrt (\<lambda>a b. cmp a b \<le> 0) (js_sort cmp xs)"
proof (induction xs)
  case Nil
  show ?case by (simp add: js_sort_Nil)
next
  case (Cons x xs)
  then show ?case
    using sorted_insert_by [of cmp "js_sort cmp xs" x] assms by (simp add: js_sort_Cons)
qed

lemma length_js_sort: "length (js_sort cmp xs) = length xs"
proof (induction xs)
  case Nil
  show ?case by (simp add: js_sort_Nil)
next
  case (Cons x xs)
  have "length (insert_by cmp x ys) = Suc (length ys)" for ys
    by (induction ys) auto
  with Cons show ?case by (simp add: js_sort_Cons)
qed

lemma insert_by_cong_set:
  "(\<And>y. y \<in> set ys \<Longrightarrow> c1 x y = c2 x y) \<Longrightarrow> insert_by c1 x ys = insert_by c2 x ys"
  by (induction ys) auto

lemma insert_oneOf_block:
  assumes "\<forall>f \<in> set A. parentValue (attrs f) = parentValue (attrs x)"
      and "\<forall>g \<in> set B. parentValue (attrs g) \<noteq> parentValue (attrs x)"
  shows "insert_by (oneOfRules lc) x (A @ B) = insert_by (airbyteRules lc) x A @ B"
  using assms
proof (induction A)
  case Nil
  then show ?case by (cases B) (auto simp: oneOfRules_def)
next
  case (Cons a A)
  then show ?case by (auto simp: oneOfRules_def)
qed

lemma sort_oneOf_block:
  assumes "\<forall>f \<in> set xs. parentValue (attrs f) = v"
      and "\<forall>g \<in> set ys. parentValue (attrs g) \<noteq> v"
  shows "sortOneOfSubFields lc (xs @ ys) =
         sortFieldsByAirbyteRules lc xs @ sortOneOfSubFields lc ys"
  using assms
proof (induction xs)
  case Nil
  then show ?case by (simp add: sortFieldsByAirbyteRules_def js_sort_Nil)
next
  case (Cons x xs)
  have A: "\<forall>f \<in> set (js_sort (airbyteRules lc) xs). parentValue (attrs f) = parentValue (attrs x)"
    using Cons.prems by (simp add: set_js_sort)
  have B: "\<forall>g \<in> set (js_sort (oneOfRules lc) ys). parentValue (attrs g) \<noteq> parentValue (attrs x)"
    using Cons.prems by (simp add: set_js_sort)
  have "sortOneOfSubFields lc ((x # xs) @ ys) =
        insert_by (oneOfRules lc) x (sortOneOfSubFields lc (xs @ ys))"
    by (simp add: sortOneOfSubFields_def js_sort_Cons)
  also have "\<dots> = insert_by (oneOfRules lc) x
                    (js_sort (airbyteRules lc) xs @ js_sort (oneOfRules lc) ys)"
    using Cons by (simp add: sortOneOfSubFields_def sortFieldsByAirbyteRules_def)
  also have "\<dots> = insert_by (airbyteRules lc) x (js_sort (airbyteRules lc) xs)
                    @ js_sort (oneOfRules lc) ys"
    using insert_oneOf_block [OF A B] .
  finally show ?case
    by (simp add: sortOneOfSubFields_def sortFieldsByAirbyteRules_def js_sort_Cons)
qed

lemma sortOneOfSubFields_blocks:
  assumes "\<forall>b \<in> set blocks. \<forall>f \<in> set (snd b). parentValue (attrs f) = Some (fst b)"
      and "distinct (map fst blocks)"
  shows "sortOneOfSubFields lc (concat (map snd blocks)) =
         concat (map (\<lambda>b. sortFieldsByAirbyteRules lc (snd b)) blocks)"
  using assms
proof (induction blocks)
  case Nil
  then show ?case by (simp add: sortOneOfSubFields_def js_sort_Nil)
next
  case (Cons b blocks)
  have own: "\<forall>f \<in> set (snd b). parentValue (attrs f) = Some (fst b)"
    using Cons.prems(1) by simp
  have others: "\<forall>g \<in> set (concat (map snd blocks)). parentValue (attrs g) \<noteq> Some (fst b)"
  proof
    fix g assume "g \<in> set (concat (map snd blocks))"
    then obtain c where c: "c \<in> set blocks" "g \<in> set (snd c)" by auto
    then have "parentValue (attrs g) = Some (fst c)" using Cons.prems(1) by simp
    moreover have "fst c \<in> fst ` set blocks" using c(1) by simp
    moreover have "fst b \<notin> fst ` set blocks" using Cons.prems(2) by simp
    ultimately show "parentValue (attrs g) \<noteq> Some (fst b)" by (metis option.inject)
  qed
  have "sortOneOfSubFields lc (snd b @ concat (map snd blocks)) =
        sortFieldsByAirbyteRules lc (snd b) @ sortOneOfSubFields lc (concat (map snd blocks))"
    by (rule sort_oneOf_block [OF own others])
  then show ?case using Cons by simp
qed

text \<open>The sort keeps the fields, is in ascending order for a consistent
  collation, and keeps tied fields in their order: it returns the sorted version,
  of which there is one.\<close>

lemma mset_insert_by: "mset (insert_by cmp x ys) = add_mset x (mset ys)"
  by (induction ys) auto

lemma mset_js_sort: "mset (js_sort cmp xs) = mset xs"
  by (induction xs) (auto simp: js_sort_def mset_insert_by)

lemma filter_insert_by:
  assumes tr: "\<And>a b c. cmp a b \<le> 0 \<Longrightarrow> cmp b c \<le> 0 \<Longrightarrow> cmp a c \<le> (0::int)"
  shows "filter (\<lambda>y. cmp z y \<le> 0 \<and> cmp y z \<le> 0) (insert_by cmp x ys) =
         filter (\<lambda>y. cmp z y \<le> 0 \<and> cmp y z \<le> 0) (x # ys)"
proof (induction ys)
  case Nil
  show ?case by simp
next
  case (Cons y ys)
  show ?case
  proof (cases "cmp x y \<le> 0")
    case True
    then show ?thesis by simp
  next
    case False
    have "\<not> ((cmp z x \<le> 0 \<and> cmp x z \<le> 0) \<and> (cmp z y \<le> 0 \<and> cmp y z \<le> 0))"
      using False tr [of x z y] by blast
    with False Cons show ?thesis by auto
  qed
qed

lemma filter_js_sort:
  assumes tr: "\<And>a b c. cmp a b \<le> 0 \<Longrightarrow> cmp b c \<le> 0 \<Longrightarrow> cmp a c \<le> (0::int)"
  shows "filter (\<lambda>y. cmp z y \<le> 0 \<and> cmp y z \<le> 0) (js_sort cmp xs) =
         filter (\<lambda>y. cmp z y \<le> 0 \<and> cmp y z \<le> 0) xs"
proof (induction xs)
  case Nil
  show ?case by (simp add: js_sort_Nil)
next
  case (Cons x xs)
  have "filter (\<lambda>y. cmp z y \<le> 0 \<and> cmp y z \<le> 0) (js_sort cmp (x # xs)) =
        filter (\<lambda>y. cmp z y \<le> 0 \<and> cmp y z \<le> 0) (x # js_sort cmp xs)"
    unfolding js_sort_Cons by (rule filter_insert_by [OF tr])
  with Cons show ?case by simp
qed

lemma airbyteRules_Some_Some:
  "order (attrs a) = Some i \<Longrightarrow> order (attrs b) = Some j \<Longrightarrow> airbyteRules lc a b = i - j"
  by (simp add: airbyteRules_def)

lemma airbyteRules_Some_None:
  "order (attrs a) = Some i \<Longrightarrow> order (attrs b) = None \<Longrightarrow> airbyteRules lc a b = - 1"
  by (simp add: airbyteRules_def)

lemma airbyteRules_None_Some:
  "order (attrs a) = None \<Longrightarrow> order (attrs b) = Some j \<Longrightarrow> airbyteRules lc a b = 1"
  by (simp add: airbyteRules_def)

lemma airbyteRules_None_None:
  "order (attrs a) = None \<Longrightarrow> order (attrs b) = None \<Longrightarrow>
   airbyteRules lc a b =
     (if required (attrs a) \<and> \<not> required (attrs b) then - 1
      else if \<not> required (attrs a) \<and> required (attrs b) then 1
      else lc (fieldName a) (fieldName b))"
  by (simp add: airbyteRules_def)

lemmas airbyteRules_cases =
  airbyteRules_Some_Some airbyteRules_Some_None airbyteRules_None_Some airbyteRules_None_None

lemma airbyteRules_total:
  assumes "consistent lc"
  shows "airbyteRules lc a b \<le> 0 \<or> airbyteRules lc b a \<le> 0"
proof -
  have t: "lc (fieldName a) (fieldName b) \<le> 0 \<or> lc (fieldName b) (fieldName a) \<le> 0"
    using assms unfolding consistent_def by blast
  show ?thesis
  proof (cases "order (attrs a)")
    case None
    note oa = this
    show ?thesis
    proof (cases "order (attrs b)")
      case None
      show ?thesis
        unfolding airbyteRules_None_None [OF oa None] airbyteRules_None_None [OF None oa]
        using t by (cases "required (attrs a)"; cases "required (attrs b)") simp_all
    next
      case (Some j)
      show ?thesis by (simp add: airbyteRules_Some_None [OF Some oa])
    qed
  next
    case (Some i)
    note oa = this
    show ?thesis
    proof (cases "order (attrs b)")
      case None
      show ?thesis by (simp add: airbyteRules_Some_None [OF oa None])
    next
      case (Some j)
      show ?thesis
        by (simp add: airbyteRules_Some_Some [OF oa Some] airbyteRules_Some_Some [OF Some oa] linear)
    qed
  qed
qed

lemma airbyteRules_trans:
  assumes "consistent lc" "airbyteRules lc a b \<le> 0" "airbyteRules lc b c \<le> 0"
  shows "airbyteRules lc a c \<le> 0"
proof -
  have tr: "lc (fieldName a) (fieldName b) \<le> 0 \<Longrightarrow> lc (fieldName b) (fieldName c) \<le> 0
            \<Longrightarrow> lc (fieldName a) (fieldName c) \<le> 0"
    using assms(1) unfolding consistent_def by blast
  show ?thesis
  proof (cases "order (attrs a)")
    case None
    note oa = this
    show ?thesis
    proof (cases "order (attrs b)")
      case None
      note ob = this
      show ?thesis
      proof (cases "order (attrs c)")
        case None
        have ab: "(if required (attrs a) \<and> \<not> required (attrs b) then - 1
                   else if \<not> required (attrs a) \<and> required (attrs b) then 1
                   else lc (fieldName a) (fieldName b)) \<le> 0"
          using assms(2) by (simp only: airbyteRules_None_None [OF oa ob])
        have bc: "(if required (attrs b) \<and> \<not> required (attrs c) then - 1
                   else if \<not> required (attrs b) \<and> required (attrs c) then 1
                   else lc (fieldName b) (fieldName c)) \<le> 0"
          using assms(3) by (simp only: airbyteRules_None_None [OF ob None])
        show ?thesis
          unfolding airbyteRules_None_None [OF oa None]
          using ab bc tr
          by (cases "required (attrs a)"; cases "required (attrs b)"; cases "required (attrs c)")
             simp_all
      next
        case (Some k)
        with ob assms(3) show ?thesis by (simp add: airbyteRules_None_Some)
      qed
    next
      case (Some j)
      with oa assms(2) show ?thesis by (simp add: airbyteRules_None_Some)
    qed
  next
    case (Some i)
    note oa = this
    show ?thesis
    proof (cases "order (attrs b)")
      case None
      note ob = this
      show ?thesis
      proof (cases "order (attrs c)")
        case None
        with oa show ?thesis by (simp add: airbyteRules_Some_None)
      next
        case (Some k)
        with ob assms(3) show ?thesis by (simp add: airbyteRules_None_Some)
      qed
    next
      case (Some j)
      note ob = this
      show ?thesis
      proof (cases "order (attrs c)")
        case None
        with oa show ?thesis by (simp add: airbyteRules_Some_None)
      next
        case (Some k)
        with oa ob assms(2,3) show ?thesis by (simp add: airbyteRules_Some_Some)
      qed
    qed
  qed
qed

lemma sortFields_sorted_version:
  assumes "consistent lc"
  shows "sorted_version lc xs (sortFieldsByAirbyteRules lc xs)"
  unfolding sorted_version_def sortFieldsByAirbyteRules_def tied_def
proof (intro conjI ballI)
  show "sorted_wrt (\<lambda>a b. airbyteRules lc a b \<le> 0) (js_sort (airbyteRules lc) xs)"
    by (rule sorted_js_sort) (rule airbyteRules_total [OF assms], rule airbyteRules_trans [OF assms])
  show "mset (js_sort (airbyteRules lc) xs) = mset xs" by (rule mset_js_sort)
  fix z
  show "filter (\<lambda>b. airbyteRules lc z b \<le> 0 \<and> airbyteRules lc b z \<le> 0) (js_sort (airbyteRules lc) xs) =
        filter (\<lambda>b. airbyteRules lc z b \<le> 0 \<and> airbyteRules lc b z \<le> 0) xs"
    by (rule filter_js_sort) (rule airbyteRules_trans [OF assms])
qed

lemma sorted_version_unique:
  assumes c: "consistent lc"
  shows "sorted_version lc xs ys \<Longrightarrow> sorted_version lc xs ys' \<Longrightarrow> ys = ys'"
proof -
  have refl: "tied lc a a" for a using airbyteRules_total [OF c, of a a] by (simp add: tied_def)
  have main: "sorted_wrt (\<lambda>a b. airbyteRules lc a b \<le> 0) us \<Longrightarrow>
              sorted_wrt (\<lambda>a b. airbyteRules lc a b \<le> 0) vs \<Longrightarrow>
              mset us = mset vs \<Longrightarrow>
              (\<forall>z \<in> set us. filter (tied lc z) us = filter (tied lc z) vs) \<Longrightarrow> us = vs" for us vs
  proof (induction us arbitrary: vs)
    case Nil
    then show ?case by simp
  next
    case (Cons u us)
    from Cons.prems(3) obtain v vs' where vs: "vs = v # vs'" by (cases vs) auto
    have sets: "set (u # us) = set vs" using Cons.prems(3) by (rule mset_eq_setD)
    then have "u \<in> set vs" by auto
    then have vu: "airbyteRules lc v u \<le> 0"
      using Cons.prems(2) refl [of u] by (auto simp: vs tied_def)
    have "v \<in> set (u # us)" using sets vs by simp
    then have uv: "airbyteRules lc u v \<le> 0"
      using Cons.prems(1) refl [of v] by (auto simp: tied_def)
    have "filter (tied lc u) (u # us) = filter (tied lc u) (v # vs')"
      using Cons.prems(4) vs by simp
    then have uveq: "u = v" using refl [of u] uv vu by (simp add: tied_def)
    have "us = vs'"
    proof (rule Cons.IH)
      show "sorted_wrt (\<lambda>a b. airbyteRules lc a b \<le> 0) us" using Cons.prems(1) by simp
      show "sorted_wrt (\<lambda>a b. airbyteRules lc a b \<le> 0) vs'" using Cons.prems(2) vs by simp
      show "mset us = mset vs'" using Cons.prems(3) vs uveq by simp
      show "\<forall>z \<in> set us. filter (tied lc z) us = filter (tied lc z) vs'"
      proof
        fix z assume "z \<in> set us"
        then have "filter (tied lc z) (u # us) = filter (tied lc z) (v # vs')"
          using Cons.prems(4) vs by simp
        then show "filter (tied lc z) us = filter (tied lc z) vs'"
          using uveq by (simp split: if_splits)
      qed
    qed
    with uveq vs show ?case by simp
  qed
  assume a: "sorted_version lc xs ys" and b: "sorted_version lc xs ys'"
  have "mset ys = mset xs" using a by (simp add: sorted_version_def)
  then have s: "set ys = set xs" by (rule mset_eq_setD)
  show "ys = ys'"
  proof (rule main)
    show "sorted_wrt (\<lambda>a b. airbyteRules lc a b \<le> 0) ys" using a by (simp add: sorted_version_def)
    show "sorted_wrt (\<lambda>a b. airbyteRules lc a b \<le> 0) ys'" using b by (simp add: sorted_version_def)
    show "mset ys = mset ys'" using a b by (simp add: sorted_version_def)
    show "\<forall>z \<in> set ys. filter (tied lc z) ys = filter (tied lc z) ys'"
      using a b s by (simp add: sorted_version_def)
  qed
qed

lemma codepoint_compare_total: "codepoint_compare a b \<le> 0 \<or> codepoint_compare b a \<le> 0"
proof (induction a b rule: codepoint_compare.induct)
  case (4 x xs y ys)
  show ?case
  proof (cases "(of_char x :: nat) = of_char y")
    case True
    with 4 show ?thesis by simp
  next
    case False
    then have "(of_char x :: nat) < of_char y \<or> (of_char y :: nat) < of_char x" by arith
    then show ?thesis by auto
  qed
qed simp_all

lemma codepoint_compare_trans:
  "codepoint_compare a b \<le> 0 \<Longrightarrow> codepoint_compare b c \<le> 0 \<Longrightarrow> codepoint_compare a c \<le> 0"
proof (induction a b arbitrary: c rule: codepoint_compare.induct)
  case 1
  then show ?case by simp
next
  case (2 y ys)
  show ?case by (cases c) simp_all
next
  case (3 x xs)
  then show ?case by simp
next
  case (4 x xs y ys)
  show ?case
  proof (cases c)
    case Nil
    with "4.prems"(2) show ?thesis by simp
  next
    case (Cons z zs)
    have xy: "(of_char x :: nat) \<le> of_char y"
      using "4.prems"(1) by (simp split: if_splits)
    have yz: "(of_char y :: nat) \<le> of_char z"
      using "4.prems"(2) Cons by (simp split: if_splits)
    show ?thesis
    proof (cases "(of_char x :: nat) < of_char z")
      case True
      then show ?thesis by (simp add: Cons)
    next
      case False
      with xy yz have e: "(of_char x :: nat) = of_char y" "(of_char y :: nat) = of_char z"
        by linarith+
      have a: "codepoint_compare xs ys \<le> 0" using "4.prems"(1) e by simp
      have b: "codepoint_compare ys zs \<le> 0" using "4.prems"(2) e Cons by simp
      have "codepoint_compare xs zs \<le> 0"
        by (rule "4.IH" [OF _ _ a b]) (simp_all add: e)
      then show ?thesis using e by (simp add: Cons)
    qed
  qed
qed

lemma consistent_codepoint_compare: "consistent codepoint_compare"
  unfolding consistent_def
proof (intro conjI allI impI)
  fix a b show "codepoint_compare a b \<le> 0 \<or> codepoint_compare b a \<le> 0"
    by (rule codepoint_compare_total)
next
  fix a b c assume "codepoint_compare a b \<le> 0 \<and> codepoint_compare b c \<le> 0"
  then show "codepoint_compare a c \<le> 0"
    using codepoint_compare_trans [of a b c] by blast
qed

section \<open>The parser: auxiliary facts\<close>

lemma ex_push_all:
  "(\<exists>r. push_all a b = Inr r) = ((\<exists>x. a = Inr x) \<and> (\<exists>y. b = Inr y))"
  by (auto simp: push_all_def split: sum.splits)

lemma ex_map_result: "(\<exists>r. map_result f a = Inr r) = (\<exists>x. a = Inr x)"
  by (auto simp: map_result_def split: sum.splits)

lemma parse_total:
  shows "(\<forall>kp \<in> set ps. variants_ok (snd kp)) \<Longrightarrow> \<exists>fs. parseProperties lc ps parentPath req = Inr fs"
    and "variants_ok prp \<Longrightarrow> \<exists>f. parseOneOfField lc key prp pth isRequired = Inr f"
    and "(\<forall>v \<in> set opts. properties v \<noteq> None \<and> variants_ok v)
           \<Longrightarrow> \<exists>acc'. oneOfOptions lc pth1 opts acc = Inr acc'"
    and "(\<forall>kp \<in> set ents. variants_ok (snd kp))
           \<Longrightarrow> \<exists>fs. optionSubFields lc pth2 constValue fieldConstKey optionRequired ents = Inr fs"
    and "variants_ok prop5 \<Longrightarrow> \<exists>f. parseArrayField lc key5 prop5 pth3 isRequired5 = Inr f"
proof (induction lc ps parentPath req and lc key prp pth isRequired and lc pth1 opts acc
         and lc pth2 constValue fieldConstKey optionRequired ents
         and lc key5 prop5 pth3 isRequired5
       rule: parseProperties_parseOneOfField_oneOfOptions_optionSubFields_parseArrayField.induct)
  case (1 lc parentPath req)
  then show ?case by simp
next
  case (2 lc key a oo it ps rest parentPath req)
  then show ?case
    by (auto simp: ex_push_all ex_map_result split: option.splits)
next
  case (3 lc key a oo it ps pth isRequired)
  then show ?case by (auto simp: ex_map_result split: option.splits)
next
  case (4 lc pth acc)
  then show ?case by simp
next
  case (5 lc pth a oo it ps opts acc)
  from "5.prems" obtain ents where ps: "ps = Some ents"
    by auto
  from "5.prems" ps have ok: "\<forall>kp \<in> set ents. variants_ok (snd kp)"
    and others: "\<forall>v \<in> set opts. properties v \<noteq> None \<and> variants_ok v"
    by auto
  show ?case
  proof (cases "find (\<lambda>kp. truthy_opt truthy_prim (p_const (p_attrs (snd kp)))) ents")
    case None
    with "5.IH"(1) [OF ps None others] ps show ?thesis by simp
  next
    case (Some constField)
    from "5.IH"(2) [OF ps Some ok] obtain subs where
      subs: "optionSubFields lc pth (the (p_const (p_attrs (snd constField)))) (fst constField)
               (case p_required a of None \<Rightarrow> [] | Some r \<Rightarrow> r) ents = Inr subs"
      by blast
    from "5.IH"(3) [OF ps Some subs others] ps Some subs show ?thesis by simp
  qed
next
  case (6 lc pth constValue fieldConstKey optionRequired)
  then show ?case by simp
next
  case (7 lc pth constValue fieldConstKey optionRequired propKey a oo it ps rest)
  then show ?case by (auto simp: ex_push_all ex_map_result)
next
  case (8 lc key a oo it ps pth isRequired)
  show ?case
  proof (cases it)
    case None
    then show ?thesis by (simp add: ex_map_result)
  next
    case it: (Some item)
    obtain ia ioo iit ips where item: "item = AirbyteProperty ia ioo iit ips"
      by (cases item)
    show ?thesis
    proof (cases ips)
      case None
      with it item show ?thesis by (simp add: ex_map_result)
    next
      case ips: (Some itemProps)
      show ?thesis
      proof (cases "p_type ia = Some ''object''")
        case True
        have "\<forall>kp \<in> set itemProps. variants_ok (snd kp)"
          using "8.prems" it item ips by simp
        from "8.IH" [OF it item ips True this] it item ips True
        show ?thesis by (simp add: ex_map_result)
      next
        case False
        with it item ips show ?thesis by (simp add: ex_map_result)
      qed
    qed
  qed
qed

lemma path_parseBasicField [simp]: "path (attrs (parseBasicField key p pth r)) = pth"
  by (simp add: parseBasicField_def)

lemma path_oneOfNode [simp]: "path (attrs (oneOfNode lc key a pth r acc)) = pth"
  by (simp add: oneOfNode_def)

lemma path_arrayNode [simp]: "path (attrs (arrayNode key a it pth r subs)) = pth"
  by (simp add: arrayNode_def)

lemma path_parseOneOfField:
  "parseOneOfField lc key p pth r = Inr f \<Longrightarrow> path (attrs f) = pth"
  by (cases p) (auto simp: map_result_def split: sum.splits)


lemma tag_subField_simps [simp]:
  "path (attrs (tag_subField pth v k f)) = path (attrs f)"
  "parentValue (attrs (tag_subField pth v k f)) = Some v"
  "id_f (attrs (tag_subField pth v k f)) = join ''.'' pth @ ''.'' @ to_string v @ ''.'' @ k"
  "order (attrs (tag_subField pth v k f)) = order (attrs f)"
  "hidden (attrs (tag_subField pth v k f)) = hidden (attrs f)"
  by (simp_all add: tag_subField_def)

lemma push_all_Inr:
  "push_all a b = Inr r \<Longrightarrow> \<exists>xs ys. a = Inr xs \<and> b = Inr ys \<and> r = xs @ ys"
  by (auto simp: push_all_def split: sum.splits)

lemma map_result_Inr: "map_result f a = Inr r \<Longrightarrow> \<exists>x. a = Inr x \<and> r = f x"
  by (auto simp: map_result_def split: sum.splits)

lemma optionSubFields_shape:
  "optionSubFields lc pth cv fk oreq ents = Inr fs \<Longrightarrow>
     map (\<lambda>f. id_f (attrs f)) fs =
       map (\<lambda>kp. join ''.'' pth @ ''.'' @ to_string cv @ ''.'' @ fst kp)
         (filter (\<lambda>kp. fst kp \<noteq> fk) ents)
     \<and> map (\<lambda>f. path (attrs f)) fs = map (\<lambda>kp. pth @ [fst kp]) (filter (\<lambda>kp. fst kp \<noteq> fk) ents)
     \<and> map (\<lambda>f. parentValue (attrs f)) fs = map (\<lambda>kp. Some cv) (filter (\<lambda>kp. fst kp \<noteq> fk) ents)"
proof (induction ents arbitrary: fs)
  case Nil
  then show ?case by simp
next
  case (Cons kp ents)
  obtain propKey p where kp: "kp = (propKey, p)" by (cases kp)
  obtain a oo it ps where p: "p = AirbyteProperty a oo it ps" by (cases p)
  show ?case
  proof (cases "propKey = fk")
    case True
    with Cons kp p show ?thesis by simp
  next
    case False
    from Cons.prems kp p False obtain sub subs where
      sub: "(if oo \<noteq> None
             then parseOneOfField lc propKey p (pth @ [propKey]) (propKey \<in> set oreq)
             else Inr (parseBasicField propKey p (pth @ [propKey]) (propKey \<in> set oreq))) = Inr sub"
      and subs: "optionSubFields lc pth cv fk oreq ents = Inr subs"
      and fs: "fs = tag_subField pth cv propKey sub # subs"
      by (auto dest!: push_all_Inr map_result_Inr)
    have "path (attrs sub) = pth @ [propKey]"
      using sub by (auto split: if_splits dest: path_parseOneOfField)
    with Cons.IH [OF subs] fs kp False show ?thesis by simp
  qed
qed

lemma optionSubFields_elem:
  assumes "optionSubFields lc pth cv fk oreq ents = Inr fs" and "f \<in> set fs"
  shows "parentValue (attrs f) = Some cv \<and>
         (\<exists>k. path (attrs f) = pth @ [k] \<and>
              id_f (attrs f) = join ''.'' pth @ ''.'' @ to_string cv @ ''.'' @ k)"
proof -
  let ?L = "filter (\<lambda>kp. fst kp \<noteq> fk) ents"
  note sh = optionSubFields_shape [OF assms(1)]
  from sh have len: "length fs = length ?L" by (metis length_map)
  from assms(2) obtain i where i: "i < length fs" "f = fs ! i"
    by (auto simp: in_set_conv_nth)
  have "map (\<lambda>f. id_f (attrs f)) fs ! i =
        map (\<lambda>kp. join ''.'' pth @ ''.'' @ to_string cv @ ''.'' @ fst kp) ?L ! i"
    using sh by simp
  then have a: "id_f (attrs f) = join ''.'' pth @ ''.'' @ to_string cv @ ''.'' @ fst (?L ! i)"
    using i len by simp
  have "map (\<lambda>f. path (attrs f)) fs ! i = map (\<lambda>kp. pth @ [fst kp]) ?L ! i"
    using sh by simp
  then have b: "path (attrs f) = pth @ [fst (?L ! i)]"
    using i len by simp
  have "map (\<lambda>f. parentValue (attrs f)) fs ! i = map (\<lambda>kp. Some cv) ?L ! i"
    using sh by simp
  then have c: "parentValue (attrs f) = Some cv"
    using i len by simp
  from a b c show ?thesis by blast
qed

lemma discriminant_values_Cons:
  "discriminant_values (v # opts) =
     (case constField_of v of
        None \<Rightarrow> discriminant_values opts
      | Some cf \<Rightarrow> the (p_const (p_attrs (snd cf))) # discriminant_values opts)"
  by (simp add: discriminant_values_def map_filter_simps split: option.splits)

lemma oneOfOptions_blocks:
  "oneOfOptions lc pth opts acc = Inr acc' \<Longrightarrow>
     \<exists>blocks. acc_subFields acc' = acc_subFields acc @ concat (map snd blocks) \<and>
       map fst blocks = discriminant_values opts \<and>
       (\<forall>b \<in> set blocks. \<forall>f \<in> set (snd b).
          parentValue (attrs f) = Some (fst b) \<and>
          (\<exists>k. path (attrs f) = pth @ [k] \<and>
               id_f (attrs f) = join ''.'' pth @ ''.'' @ to_string (fst b) @ ''.'' @ k))"
proof (induction opts arbitrary: acc)
  case Nil
  then have "acc' = acc" by simp
  then show ?case
    by (intro exI [of _ "[]"]) (simp add: discriminant_values_def map_filter_simps)
next
  case (Cons v opts)
  obtain a oo it ps where v: "v = AirbyteProperty a oo it ps" by (cases v)
  from Cons.prems v obtain ents where ps: "ps = Some ents"
    by (cases ps) auto
  show ?case
  proof (cases "find (\<lambda>kp. truthy_opt truthy_prim (p_const (p_attrs (snd kp)))) ents")
    case None
    then have cf: "constField_of v = None" using v ps by (simp add: constField_of_def)
    from Cons.prems v ps None have "oneOfOptions lc pth opts acc = Inr acc'" by simp
    from Cons.IH [OF this] cf show ?thesis by (simp add: discriminant_values_Cons)
  next
    case (Some constField)
    let ?cv = "the (p_const (p_attrs (snd constField)))"
    have cf: "constField_of v = Some constField" using v ps Some by (simp add: constField_of_def)
    from Cons.prems v ps Some obtain subs where
      subs: "optionSubFields lc pth ?cv (fst constField)
               (case p_required a of None \<Rightarrow> [] | Some r \<Rightarrow> r) ents = Inr subs"
      and rest: "oneOfOptions lc pth opts (add_option a (fst constField) ?cv subs acc) = Inr acc'"
      by (auto split: sum.splits)
    from Cons.IH [OF rest] obtain blocks where
      b1: "acc_subFields acc' =
             acc_subFields (add_option a (fst constField) ?cv subs acc) @ concat (map snd blocks)"
      and b2: "map fst blocks = discriminant_values opts"
      and b3: "\<forall>b \<in> set blocks. \<forall>f \<in> set (snd b).
          parentValue (attrs f) = Some (fst b) \<and>
          (\<exists>k. path (attrs f) = pth @ [k] \<and>
               id_f (attrs f) = join ''.'' pth @ ''.'' @ to_string (fst b) @ ''.'' @ k)"
      by blast
    have own: "\<forall>f \<in> set subs.
          parentValue (attrs f) = Some ?cv \<and>
          (\<exists>k. path (attrs f) = pth @ [k] \<and>
               id_f (attrs f) = join ''.'' pth @ ''.'' @ to_string ?cv @ ''.'' @ k)"
      using optionSubFields_elem [OF subs] by blast
    show ?thesis
      using b1 b2 b3 own cf
      by (intro exI [of _ "(?cv, subs) # blocks"])
         (simp add: discriminant_values_Cons add_option_def)
  qed
qed

lemma parseOneOfField_blocks:
  assumes "parseOneOfField lc key (AirbyteProperty a (Some opts) it ps) pth r = Inr node"
  shows "\<exists>acc blocks. oneOfOptions lc pth opts empty_acc = Inr acc \<and>
       acc_subFields acc = concat (map snd blocks) \<and>
       map fst blocks = discriminant_values opts \<and>
       (\<forall>b \<in> set blocks. \<forall>f \<in> set (snd b).
          parentValue (attrs f) = Some (fst b) \<and>
          (\<exists>k. path (attrs f) = pth @ [k] \<and>
               id_f (attrs f) = join ''.'' pth @ ''.'' @ to_string (fst b) @ ''.'' @ k)) \<and>
       subFields node = Some (sortOneOfSubFields lc (acc_subFields acc))"
proof -
  from assms obtain acc where acc: "oneOfOptions lc pth opts empty_acc = Inr acc"
    and node: "node = oneOfNode lc key a pth r acc"
    by (auto dest!: map_result_Inr)
  from oneOfOptions_blocks [OF acc] obtain blocks where
    "acc_subFields acc = acc_subFields empty_acc @ concat (map snd blocks)"
    "map fst blocks = discriminant_values opts"
    "\<forall>b \<in> set blocks. \<forall>f \<in> set (snd b).
          parentValue (attrs f) = Some (fst b) \<and>
          (\<exists>k. path (attrs f) = pth @ [k] \<and>
               id_f (attrs f) = join ''.'' pth @ ''.'' @ to_string (fst b) @ ''.'' @ k)"
    by blast
  with acc node show ?thesis
    by (intro exI [of _ acc] exI [of _ blocks]) (simp add: empty_acc_def oneOfNode_def)
qed

section \<open>Discriminant groups\<close>

lemma map_uniform: "\<forall>x \<in> set xs. f x = v \<Longrightarrow> map f xs = replicate (length xs) v"
  by (induction xs) auto

lemma map_parentValue_block:
  assumes "\<forall>f \<in> set xs. parentValue (attrs f) = v"
  shows "map (\<lambda>f. parentValue (attrs f)) (sortFieldsByAirbyteRules lc xs) =
         map (\<lambda>f. parentValue (attrs f)) xs"
proof -
  have "\<forall>f \<in> set (sortFieldsByAirbyteRules lc xs). parentValue (attrs f) = v"
    using assms by (simp add: sortFieldsByAirbyteRules_def set_js_sort)
  then have "map (\<lambda>f. parentValue (attrs f)) (sortFieldsByAirbyteRules lc xs) =
             replicate (length (sortFieldsByAirbyteRules lc xs)) v"
    by (rule map_uniform)
  moreover have "map (\<lambda>f. parentValue (attrs f)) xs = replicate (length xs) v"
    using assms by (rule map_uniform)
  ultimately show ?thesis
    by (simp add: sortFieldsByAirbyteRules_def length_js_sort)
qed

lemma map_parentValue_blocks:
  assumes "\<forall>b \<in> set blocks. \<forall>f \<in> set (snd b). parentValue (attrs f) = Some (fst b)"
  shows "map (\<lambda>f. parentValue (attrs f))
           (concat (map (\<lambda>b. sortFieldsByAirbyteRules lc (snd b)) blocks)) =
         map (\<lambda>f. parentValue (attrs f)) (concat (map snd blocks))"
  using assms
proof (induction blocks)
  case Nil
  show ?case by simp
next
  case (Cons b blocks)
  have "\<forall>f \<in> set (snd b). parentValue (attrs f) = Some (fst b)" using Cons.prems by simp
  from map_parentValue_block [OF this, of lc] Cons show ?case by simp
qed

lemma group_of_all: "\<forall>f \<in> set xs. parentValue (attrs f) = Some v \<Longrightarrow> group_of v xs = xs"
  by (simp add: group_of_def)

lemma group_of_none: "\<forall>f \<in> set xs. parentValue (attrs f) \<noteq> Some v \<Longrightarrow> group_of v xs = []"
  by (simp add: group_of_def)

lemma group_of_append: "group_of v (xs @ ys) = group_of v xs @ group_of v ys"
  by (simp add: group_of_def)

lemma sortFields_Nil: "sortFieldsByAirbyteRules lc [] = []"
  by (simp add: sortFieldsByAirbyteRules_def js_sort_Nil)

lemma set_sortFields: "set (sortFieldsByAirbyteRules lc xs) = set xs"
  by (simp add: sortFieldsByAirbyteRules_def set_js_sort)

lemma group_of_blocks:
  assumes "\<forall>b \<in> set blocks. \<forall>f \<in> set (snd b). parentValue (attrs f) = Some (fst b)"
      and "distinct (map fst blocks)"
  shows "group_of v (concat (map (\<lambda>b. sortFieldsByAirbyteRules lc (snd b)) blocks)) =
         sortFieldsByAirbyteRules lc (group_of v (concat (map snd blocks)))"
  using assms
proof (induction blocks)
  case Nil
  then show ?case by (simp add: group_of_def sortFields_Nil)
next
  case (Cons b blocks)
  have IH: "group_of v (concat (map (\<lambda>b. sortFieldsByAirbyteRules lc (snd b)) blocks)) =
            sortFieldsByAirbyteRules lc (group_of v (concat (map snd blocks)))"
    using Cons by simp
  have own: "\<forall>f \<in> set (snd b). parentValue (attrs f) = Some (fst b)"
    using Cons.prems(1) by simp
  show ?case
  proof (cases "fst b = v")
    case True
    have "\<forall>g \<in> set (concat (map snd blocks)). parentValue (attrs g) \<noteq> Some v"
    proof
      fix g assume "g \<in> set (concat (map snd blocks))"
      then obtain c where c: "c \<in> set blocks" "g \<in> set (snd c)" by auto
      then have "parentValue (attrs g) = Some (fst c)" using Cons.prems(1) by simp
      moreover have "fst c \<in> fst ` set blocks" using c(1) by simp
      moreover have "fst b \<notin> fst ` set blocks" using Cons.prems(2) by simp
      ultimately show "parentValue (attrs g) \<noteq> Some v" using True by (metis option.inject)
    qed
    then have rest: "group_of v (concat (map snd blocks)) = []" by (rule group_of_none)
    have a: "group_of v (snd b) = snd b" using own True by (simp add: group_of_all)
    have b: "group_of v (sortFieldsByAirbyteRules lc (snd b)) = sortFieldsByAirbyteRules lc (snd b)"
      using own True by (simp add: group_of_all set_sortFields)
    show ?thesis using IH rest a b by (simp add: group_of_append sortFields_Nil)
  next
    case False
    have a: "group_of v (snd b) = []" using own False by (simp add: group_of_none)
    have b: "group_of v (sortFieldsByAirbyteRules lc (snd b)) = []"
      using own False by (simp add: group_of_none set_sortFields)
    show ?thesis using IH a b by (simp add: group_of_append)
  qed
qed

section \<open>Paths and nesting\<close>








section \<open>Running the examples\<close>

lemmas example_defs =
  leaf_def ordered_leaf_def grouped_leaf_def hidden_leaf_def const_leaf_def variant_def
  oneOf_prop_def object_prop_def array_prop_def no_attrs_def grouped_ordered_leaf_def
  const_prim_leaf_def variant_req_def

lemmas parser_defs =
  parseAirbyteSpec_def Object_entries_def push_all_def map_result_def parseBasicField_def
  oneOfNode_def arrayNode_def tag_subField_def add_option_def empty_acc_def truthy_opt_def
  str_or_def

lemmas sort_defs =
  sortFieldsByAirbyteRules_def sortOneOfSubFields_def js_sort_def airbyteRules_def
  oneOfRules_def fieldName_def

lemma oneOfOptions_no_discriminants:
  "\<forall>v \<in> set opts. properties v \<noteq> None \<and> constField_of v = None
     \<Longrightarrow> oneOfOptions lc pth opts acc = Inr acc"
proof (induction opts)
  case Nil
  then show ?case by simp
next
  case (Cons v opts)
  obtain a oo it ps where v: "v = AirbyteProperty a oo it ps" by (cases v)
  with Cons show ?case by (auto simp: constField_of_def)
qed


section \<open>The claims\<close>

subsection \<open>C1: hidden properties\<close>

text \<open>
  C1 says that no property with \<open>airbyte_hidden\<close> set appears anywhere in the output
  tree, also not as a subfield of a oneOf variant. \<open>parseProperties\<close> skips a hidden
  property; the loop over a variant's properties in \<open>parseOneOfField\<close> has no such
  test. On \<open>hidden_spec\<close> the hidden top-level property \<open>internal\<close> is absent from
  the output, while the hidden property \<open>client_key\<close> of the variant is emitted as
  the subfield \<open>ssl_mode.verify-ca.client_key\<close>, its \<open>hidden\<close> flag set.
\<close>

theorem hidden_oneOf_subfield_emitted:
  "map_result (map (\<lambda>g. map (\<lambda>f. id_f (attrs f)) (fg_fields g)))
     (parseAirbyteSpec codepoint_compare hidden_spec) = Inr [[''ssl_mode'']]
   \<and> map_result (map (\<lambda>g. map (\<lambda>f. hidden_ids (subFields_of f)) (fg_fields g)))
     (parseAirbyteSpec codepoint_compare hidden_spec)
       = Inr [[[''ssl_mode.verify-ca.client_key'']]]"
  by (simp add: hidden_spec_def example_defs parser_defs sort_defs subFields_of_def hidden_ids_def)

subsection \<open>C2: what raises\<close>

text \<open>
  C2, as amended: the parse raises when the root document has no \<open>properties\<close>
  (the \<open>TypeError\<close> of \<open>Object.entries\<close>, from the first step of the traversal).
  When the root has \<open>properties\<close> and every oneOf variant in the schema has a
  \<open>properties\<close> mapping, the parse returns. A variant without a discriminant
  leaves the accumulators as they are, so the other variants are resolved as
  without it; a oneOf none of whose variants has a discriminant is emitted with
  no discriminant options and no subfields; an array property without an item
  schema is emitted as a leaf.
\<close>

theorem parseAirbyteSpec_raises:
  "(s_properties spec = None \<longrightarrow> parseAirbyteSpec lc spec = Inl TypeError)
   \<and> (\<forall>ps. s_properties spec = Some ps \<and> (\<forall>kp \<in> set ps. variants_ok (snd kp))
          \<longrightarrow> (\<exists>gs. parseAirbyteSpec lc spec = Inr gs))
   \<and> (properties v \<noteq> None \<and> constField_of v = None
          \<longrightarrow> oneOfOptions lc pth (v # opts) acc = oneOfOptions lc pth opts acc)
   \<and> ((\<forall>v \<in> set opts. properties v \<noteq> None \<and> constField_of v = None)
          \<longrightarrow> (\<exists>node. parseOneOfField lc key (AirbyteProperty a (Some opts) it ps') pth' r
                         = Inr node
                 \<and> constOptions (attrs node) = Some [] \<and> constKey (attrs node) = None
                 \<and> subFields node = Some []))
   \<and> (\<not> truthy_opt id (airbyte_hidden a) \<and> p_type a = Some ''array''
          \<longrightarrow> parseProperties lc ((key, AirbyteProperty a None None ps') # rest) parentPath req
              = push_all
                  (Inr [parseBasicField key (AirbyteProperty a None None ps') (parentPath @ [key])
                          (key \<in> set req)])
                  (parseProperties lc rest parentPath req))"
proof (intro conjI impI allI)
  assume "s_properties spec = None"
  then show "parseAirbyteSpec lc spec = Inl TypeError"
    by (simp add: parseAirbyteSpec_def Object_entries_def)
next
  fix ps
  assume h: "s_properties spec = Some ps \<and> (\<forall>kp \<in> set ps. variants_ok (snd kp))"
  then obtain fs where
    "parseProperties lc ps [] (case s_required spec of None \<Rightarrow> [] | Some r \<Rightarrow> r) = Inr fs"
    using parse_total(1) by blast
  with h show "\<exists>gs. parseAirbyteSpec lc spec = Inr gs"
    by (simp add: parseAirbyteSpec_def Object_entries_def split: option.splits)
next
  assume "properties v \<noteq> None \<and> constField_of v = None"
  then show "oneOfOptions lc pth (v # opts) acc = oneOfOptions lc pth opts acc"
    by (cases v) (auto simp: constField_of_def)
next
  assume "\<forall>v \<in> set opts. properties v \<noteq> None \<and> constField_of v = None"
  then have "oneOfOptions lc pth' opts empty_acc = Inr empty_acc"
    by (rule oneOfOptions_no_discriminants)
  then show "\<exists>node. parseOneOfField lc key (AirbyteProperty a (Some opts) it ps') pth' r = Inr node
                 \<and> constOptions (attrs node) = Some [] \<and> constKey (attrs node) = None
                 \<and> subFields node = Some []"
    by (simp add: map_result_def oneOfNode_def empty_acc_def sortOneOfSubFields_def js_sort_def)
next
  assume "\<not> truthy_opt id (airbyte_hidden a) \<and> p_type a = Some ''array''"
  then show "parseProperties lc ((key, AirbyteProperty a None None ps') # rest) parentPath req
              = push_all
                  (Inr [parseBasicField key (AirbyteProperty a None None ps') (parentPath @ [key])
                          (key \<in> set req)])
                  (parseProperties lc rest parentPath req)"
    by (simp split: option.splits)
qed

text \<open>C2 at \<open>degraded_spec\<close> and at a root document without \<open>properties\<close>.\<close>

theorem parseAirbyteSpec_raises_witness:
  "parseAirbyteSpec codepoint_compare \<lparr> s_properties = None, s_required = None, groups = None \<rparr>
     = Inl TypeError
   \<and> s_properties degraded_spec \<noteq> None
   \<and> (\<exists>gs. parseAirbyteSpec codepoint_compare degraded_spec = Inr gs)
   \<and> oneOfOptions codepoint_compare [''ssl_mode'']
        [variant [(''password'', leaf ''string'')], variant [(''mode'', const_leaf ''disable'')]]
        empty_acc
      = oneOfOptions codepoint_compare [''ssl_mode''] [variant [(''mode'', const_leaf ''disable'')]]
          empty_acc
   \<and> (\<exists>node. parseOneOfField codepoint_compare ''ssl_mode''
                 (AirbyteProperty no_attrs (Some [variant [(''password'', leaf ''string'')]]) None None)
                 [''ssl_mode''] False = Inr node
             \<and> constOptions (attrs node) = Some [] \<and> subFields node = Some [])
   \<and> parseProperties codepoint_compare [(''tags'', leaf ''array'')] [] []
        = Inr [parseBasicField ''tags'' (leaf ''array'') [''tags''] False]"
proof -
  let ?ps = "[(''ssl_mode'', oneOf_prop
             [variant [(''password'', leaf ''string'')],
              variant [(''mode'', const_leaf ''disable'')]]),
          (''tags'', leaf ''array'')]"
  let ?s0 = "\<lparr> s_properties = None, s_required = None, groups = None \<rparr>"
  have p: "s_properties degraded_spec = Some ?ps"
    by (simp add: degraded_spec_def)
  have ok: "\<forall>kp \<in> set ?ps. variants_ok (snd kp)"
    by (simp add: example_defs)
  have nd: "properties (variant [(''password'', leaf ''string'')]) \<noteq> None \<and>
            constField_of (variant [(''password'', leaf ''string'')]) = None"
    by (simp add: example_defs constField_of_def truthy_opt_def)
  have nd': "\<forall>v \<in> set [variant [(''password'', leaf ''string'')]].
               properties v \<noteq> None \<and> constField_of v = None"
    using nd by simp
  have arr: "\<not> truthy_opt id (airbyte_hidden (no_attrs\<lparr>p_type := Some ''array''\<rparr>)) \<and>
             p_type (no_attrs\<lparr>p_type := Some ''array''\<rparr>) = Some ''array''"
    by (simp add: no_attrs_def truthy_opt_def)
  note t0 = parseAirbyteSpec_raises [of ?s0 codepoint_compare]
  note t1 = parseAirbyteSpec_raises [of degraded_spec codepoint_compare]
  note t2 = parseAirbyteSpec_raises
    [of ?s0 codepoint_compare "variant [(''password'', leaf ''string'')]" "[''ssl_mode'']"
        "[variant [(''mode'', const_leaf ''disable'')]]" empty_acc]
  note t3 = parseAirbyteSpec_raises
    [of ?s0 codepoint_compare _ _ "[variant [(''password'', leaf ''string'')]]" _ "''ssl_mode''"
        no_attrs None None "[''ssl_mode'']" False]
  note t4 = parseAirbyteSpec_raises
    [of ?s0 codepoint_compare _ _ "[]" _ "''tags''" "no_attrs\<lparr>p_type := Some ''array''\<rparr>" None None
        "[]" False "[]" "[]" "[]"]
  have c0: "parseAirbyteSpec codepoint_compare ?s0 = Inl TypeError"
    using t0 by simp
  have c1: "\<exists>gs. parseAirbyteSpec codepoint_compare degraded_spec = Inr gs"
    using t1 p ok by blast
  have c2: "oneOfOptions codepoint_compare [''ssl_mode'']
        [variant [(''password'', leaf ''string'')], variant [(''mode'', const_leaf ''disable'')]]
        empty_acc
      = oneOfOptions codepoint_compare [''ssl_mode''] [variant [(''mode'', const_leaf ''disable'')]]
          empty_acc"
    using t2 nd by blast
  have c3: "\<exists>node. parseOneOfField codepoint_compare ''ssl_mode''
                 (AirbyteProperty no_attrs (Some [variant [(''password'', leaf ''string'')]]) None None)
                 [''ssl_mode''] False = Inr node
             \<and> constOptions (attrs node) = Some [] \<and> subFields node = Some []"
    using t3 nd' by blast
  have c4: "parseProperties codepoint_compare [(''tags'', leaf ''array'')] [] []
        = Inr [parseBasicField ''tags'' (leaf ''array'') [''tags''] False]"
    using t4 arr by (simp add: leaf_def push_all_def)
  from c0 p c1 c2 c3 c4 show ?thesis by simp
qed

text \<open>
  C2 as stated fails: the root of \<open>no_properties_variant_spec\<close> has \<open>properties\<close>,
  and the parse raises, at the variant that has none.
\<close>

theorem variant_without_properties_raises:
  "s_properties no_properties_variant_spec \<noteq> None \<and>
   parseAirbyteSpec codepoint_compare no_properties_variant_spec = Inl TypeError"
  by (simp add: no_properties_variant_spec_def example_defs parser_defs)

subsection \<open>C3: the sibling comparator\<close>

text \<open>
  C3: the comparator of \<open>sortFieldsByAirbyteRules\<close>. When both fields have an
  \<open>order\<close>, it is the difference of the two numerals (ascending order). When only
  one has an \<open>order\<close>, that field sorts first, whatever the \<open>required\<close> flags are.
  When neither has one, a required field sorts before an optional one, and two
  fields with the same \<open>required\<close> flag compare as the collation compares the
  last segments of their paths. In each case the sort of the two fields, in either
  input order, puts first the field that the rule puts first. With a collation that
  puts \<open>dbname\<close> before \<open>host\<close>, the orderless siblings host (required), port
  (optional), dbname (required) come out as dbname, host, port.
\<close>

theorem sibling_comparator:
  "(order (attrs a) = Some x \<and> order (attrs b) = Some y \<longrightarrow> airbyteRules lc a b = x - y)
   \<and> (order (attrs a) = Some x \<and> order (attrs b) = Some y \<and> x < y \<longrightarrow>
        sortFieldsByAirbyteRules lc [a, b] = [a, b] \<and> sortFieldsByAirbyteRules lc [b, a] = [a, b])
   \<and> (order (attrs a) \<noteq> None \<and> order (attrs b) = None \<longrightarrow>
        airbyteRules lc a b < 0 \<and> 0 < airbyteRules lc b a \<and>
        sortFieldsByAirbyteRules lc [a, b] = [a, b] \<and> sortFieldsByAirbyteRules lc [b, a] = [a, b])
   \<and> (order (attrs a) = None \<and> order (attrs b) = None \<and>
        required (attrs a) \<and> \<not> required (attrs b) \<longrightarrow>
        airbyteRules lc a b < 0 \<and> 0 < airbyteRules lc b a \<and>
        sortFieldsByAirbyteRules lc [a, b] = [a, b] \<and> sortFieldsByAirbyteRules lc [b, a] = [a, b])
   \<and> (order (attrs a) = None \<and> order (attrs b) = None \<and>
        required (attrs a) = required (attrs b) \<and> path (attrs a) \<noteq> [] \<and> path (attrs b) \<noteq> [] \<longrightarrow>
        airbyteRules lc a b = lc (last (path (attrs a))) (last (path (attrs b))))
   \<and> (0 < lc ''host'' ''dbname'' \<longrightarrow>
        map_result (map (\<lambda>g. map (\<lambda>f. id_f (attrs f)) (fg_fields g)))
          (parseAirbyteSpec lc host_port_dbname_spec) = Inr [[''dbname'', ''host'', ''port'']])"
proof (intro conjI impI)
  assume "0 < lc ''host'' ''dbname''"
  then show "map_result (map (\<lambda>g. map (\<lambda>f. id_f (attrs f)) (fg_fields g)))
          (parseAirbyteSpec lc host_port_dbname_spec) = Inr [[''dbname'', ''host'', ''port'']]"
    by (simp add: host_port_dbname_spec_def example_defs parser_defs sort_defs)
qed (auto simp: sort_defs)

text \<open>C3 at concrete fields, with \<open>codepoint_compare\<close> as the collation.\<close>

theorem sibling_comparator_witness:
  "airbyteRules codepoint_compare
     (parseBasicField ''a'' (ordered_leaf 1) [''a''] False)
     (parseBasicField ''b'' (ordered_leaf 2) [''b''] False) = 1 - 2
   \<and> sortFieldsByAirbyteRules codepoint_compare
       [parseBasicField ''b'' (ordered_leaf 2) [''b''] False,
        parseBasicField ''a'' (ordered_leaf 1) [''a''] False]
     = [parseBasicField ''a'' (ordered_leaf 1) [''a''] False,
        parseBasicField ''b'' (ordered_leaf 2) [''b''] False]
   \<and> sortFieldsByAirbyteRules codepoint_compare
       [parseBasicField ''b'' (leaf ''string'') [''b''] True,
        parseBasicField ''a'' (ordered_leaf 1) [''a''] False]
     = [parseBasicField ''a'' (ordered_leaf 1) [''a''] False,
        parseBasicField ''b'' (leaf ''string'') [''b''] True]
   \<and> sortFieldsByAirbyteRules codepoint_compare
       [parseBasicField ''port'' (leaf ''integer'') [''port''] False,
        parseBasicField ''host'' (leaf ''string'') [''host''] True]
     = [parseBasicField ''host'' (leaf ''string'') [''host''] True,
        parseBasicField ''port'' (leaf ''integer'') [''port''] False]
   \<and> airbyteRules codepoint_compare
       (parseBasicField ''host'' (leaf ''string'') [''host''] True)
       (parseBasicField ''dbname'' (leaf ''string'') [''dbname''] True)
     = codepoint_compare ''host'' ''dbname''
   \<and> 0 < codepoint_compare ''host'' ''dbname''
   \<and> map_result (map (\<lambda>g. map (\<lambda>f. id_f (attrs f)) (fg_fields g)))
          (parseAirbyteSpec codepoint_compare host_port_dbname_spec)
       = Inr [[''dbname'', ''host'', ''port'']]"
proof -
  let ?a1 = "parseBasicField ''a'' (ordered_leaf 1) [''a''] False"
  let ?b2 = "parseBasicField ''b'' (ordered_leaf 2) [''b''] False"
  let ?b = "parseBasicField ''b'' (leaf ''string'') [''b''] True"
  let ?host = "parseBasicField ''host'' (leaf ''string'') [''host''] True"
  let ?port = "parseBasicField ''port'' (leaf ''integer'') [''port''] False"
  let ?dbname = "parseBasicField ''dbname'' (leaf ''string'') [''dbname''] True"
  have o1: "order (attrs ?a1) = Some 1" "order (attrs ?b2) = Some 2" "order (attrs ?b) = None"
    "order (attrs ?host) = None" "order (attrs ?port) = None" "order (attrs ?dbname) = None"
    by (simp_all add: parseBasicField_def example_defs)
  have r1: "required (attrs ?host)" "\<not> required (attrs ?port)" "required (attrs ?dbname)"
    "path (attrs ?host) \<noteq> []" "path (attrs ?dbname) \<noteq> []"
    "last (path (attrs ?host)) = ''host''" "last (path (attrs ?dbname)) = ''dbname''"
    by (simp_all add: parseBasicField_def)
  have lc: "0 < codepoint_compare ''host'' ''dbname''"
    by simp
  note t1 = sibling_comparator [of ?a1 1 ?b2 2 codepoint_compare]
  note t2 = sibling_comparator [of ?a1 1 ?b 2 codepoint_compare]
  note t3 = sibling_comparator [of ?host 1 ?port 2 codepoint_compare]
  note t4 = sibling_comparator [of ?host 1 ?dbname 2 codepoint_compare]
  have c1: "airbyteRules codepoint_compare ?a1 ?b2 = 1 - 2"
    using t1 o1 by blast
  have c2: "sortFieldsByAirbyteRules codepoint_compare [?b2, ?a1] = [?a1, ?b2]"
    using t1 o1 by simp
  have c3: "sortFieldsByAirbyteRules codepoint_compare [?b, ?a1] = [?a1, ?b]"
    using t2 o1 by simp
  have c4: "sortFieldsByAirbyteRules codepoint_compare [?port, ?host] = [?host, ?port]"
    using t3 o1 r1 by blast
  have c5: "airbyteRules codepoint_compare ?host ?dbname = codepoint_compare ''host'' ''dbname''"
    using t4 o1 r1 by simp
  have c6: "map_result (map (\<lambda>g. map (\<lambda>f. id_f (attrs f)) (fg_fields g)))
          (parseAirbyteSpec codepoint_compare host_port_dbname_spec)
       = Inr [[''dbname'', ''host'', ''port'']]"
    using t4 lc by blast
  from c1 c2 c3 c4 c5 lc c6 show ?thesis by blast
qed

subsection \<open>C4: ids of variant subfields\<close>



text \<open>
  C4 as stated fails: in \<open>number_and_text_prop\<close> the two variants have the
  discriminant values 5 (a number) and \<open>5\<close> (a string), which are different values,
  and each exposes \<open>p\<close>. Both subfields get the id \<open>u.5.p\<close>.
\<close>

theorem number_and_text_ids_collide:
  "map_result (\<lambda>f. map (\<lambda>g. (parentValue (attrs g), id_f (attrs g))) (subFields_of f))
     (parseOneOfField codepoint_compare ''u'' number_and_text_prop [''u''] False)
     = Inr [(Some (JNum ''5''), ''u.5.p''), (Some (JStr ''5''), ''u.5.p'')]
   \<and> JNum ''5'' \<noteq> JStr ''5''"
  by (simp add: number_and_text_prop_def example_defs parser_defs sort_defs subFields_of_def)

subsection \<open>C5: sorting within discriminant groups\<close>

text \<open>
  C5, as amended: when the variants of a oneOf node have pairwise distinct
  discriminant values, each \<open>parentValue\<close> group of the sorted subfield list is
  that group of the encounter-order list sorted by the sibling rules (for a
  consistent collation: its sorted version, in ascending order of the rules with
  the same fields and ties in encounter order), and the sequence of \<open>parentValue\<close>
  tags is the one of the encounter-order list: the groups follow one another in
  variant-declaration order, so two subfields of different groups keep their
  relative order.
\<close>

theorem oneOf_groups_sorted_independently:
  assumes "parseOneOfField lc key p pth r = Inr node"
      and "oneOf p = Some opts"
      and "distinct (discriminant_values opts)"
  shows "\<exists>acc. oneOfOptions lc pth opts empty_acc = Inr acc \<and>
           subFields node = Some (sortOneOfSubFields lc (acc_subFields acc)) \<and>
           (\<forall>v. group_of v (subFields_of node) =
                  sortFieldsByAirbyteRules lc (group_of v (acc_subFields acc))) \<and>
           (consistent lc \<longrightarrow>
              (\<forall>v. sorted_version lc (group_of v (acc_subFields acc))
                     (group_of v (subFields_of node)))) \<and>
           map (\<lambda>f. parentValue (attrs f)) (subFields_of node) =
             map (\<lambda>f. parentValue (attrs f)) (acc_subFields acc)"
proof -
  obtain a oo it ps where p: "p = AirbyteProperty a oo it ps" by (cases p)
  with assms(2) have oo: "oo = Some opts" by simp
  from parseOneOfField_blocks [OF assms(1) [unfolded p oo]] obtain acc blocks where
    acc: "oneOfOptions lc pth opts empty_acc = Inr acc"
    and cat: "acc_subFields acc = concat (map snd blocks)"
    and tags: "map fst blocks = discriminant_values opts"
    and uni: "\<forall>b \<in> set blocks. \<forall>f \<in> set (snd b). parentValue (attrs f) = Some (fst b)"
    and sub: "subFields node = Some (sortOneOfSubFields lc (acc_subFields acc))"
    by blast
  have dist: "distinct (map fst blocks)" using tags assms(3) by simp
  have sorted: "sortOneOfSubFields lc (acc_subFields acc) =
                concat (map (\<lambda>b. sortFieldsByAirbyteRules lc (snd b)) blocks)"
    unfolding cat by (rule sortOneOfSubFields_blocks [OF uni dist])
  have grp: "\<forall>v. group_of v (subFields_of node) =
                  sortFieldsByAirbyteRules lc (group_of v (acc_subFields acc))"
    using group_of_blocks [OF uni dist] sub sorted cat by (simp add: subFields_of_def)
  have srt: "consistent lc \<longrightarrow>
              (\<forall>v. sorted_version lc (group_of v (acc_subFields acc))
                     (group_of v (subFields_of node)))"
    using grp sortFields_sorted_version [of lc] by simp
  have seq: "map (\<lambda>f. parentValue (attrs f)) (subFields_of node) =
             map (\<lambda>f. parentValue (attrs f)) (acc_subFields acc)"
    using sub sorted cat map_parentValue_blocks [OF uni, of lc] by (simp add: subFields_of_def)
  show ?thesis
    by (intro exI [of _ acc] conjI) (rule acc sub grp srt seq)+
qed

text \<open>C5 at \<open>two_by_two_prop\<close>: the variant \<open>a\<close> declares its subfields in
  descending \<open>order\<close>, the variant \<open>b\<close> an optional subfield before a required one.
  Each group comes out sorted, \<open>a\<close> before \<open>b\<close>.\<close>

theorem oneOf_groups_sorted_independently_witness:
  "oneOf two_by_two_prop =
     Some [variant [(''mode'', const_leaf ''a''), (''a2'', ordered_leaf 2), (''a1'', ordered_leaf 1)],
           variant_req [''b_req'']
             [(''mode'', const_leaf ''b''), (''b_opt'', leaf ''string''), (''b_req'', leaf ''string'')]]
   \<and> discriminant_values
        [variant [(''mode'', const_leaf ''a''), (''a2'', ordered_leaf 2), (''a1'', ordered_leaf 1)],
         variant_req [''b_req'']
           [(''mode'', const_leaf ''b''), (''b_opt'', leaf ''string''), (''b_req'', leaf ''string'')]]
       = [JStr ''a'', JStr ''b'']
   \<and> distinct [JStr ''a'', JStr ''b'']
   \<and> consistent codepoint_compare
   \<and> (\<exists>node acc.
        parseOneOfField codepoint_compare ''u'' two_by_two_prop [''u''] False = Inr node \<and>
        oneOfOptions codepoint_compare [''u'']
          [variant [(''mode'', const_leaf ''a''), (''a2'', ordered_leaf 2), (''a1'', ordered_leaf 1)],
           variant_req [''b_req'']
             [(''mode'', const_leaf ''b''), (''b_opt'', leaf ''string''), (''b_req'', leaf ''string'')]]
          empty_acc = Inr acc \<and>
        map (\<lambda>f. id_f (attrs f)) (acc_subFields acc) =
          [''u.a.a2'', ''u.a.a1'', ''u.b.b_opt'', ''u.b.b_req''] \<and>
        map (\<lambda>f. id_f (attrs f)) (subFields_of node) =
          [''u.a.a1'', ''u.a.a2'', ''u.b.b_req'', ''u.b.b_opt''] \<and>
        (\<forall>v. group_of v (subFields_of node) =
               sortFieldsByAirbyteRules codepoint_compare (group_of v (acc_subFields acc))) \<and>
        map (\<lambda>f. id_f (attrs f)) (group_of (JStr ''b'') (acc_subFields acc)) =
          [''u.b.b_opt'', ''u.b.b_req''] \<and>
        map (\<lambda>f. id_f (attrs f)) (group_of (JStr ''b'') (subFields_of node)) =
          [''u.b.b_req'', ''u.b.b_opt''] \<and>
        sorted_version codepoint_compare (group_of (JStr ''b'') (acc_subFields acc))
          (group_of (JStr ''b'') (subFields_of node)) \<and>
        map (\<lambda>f. parentValue (attrs f)) (subFields_of node) =
          map (\<lambda>f. parentValue (attrs f)) (acc_subFields acc) \<and>
        map (\<lambda>f. parentValue (attrs f)) (subFields_of node) =
          [Some (JStr ''a''), Some (JStr ''a''), Some (JStr ''b''), Some (JStr ''b'')])"
proof -
  let ?opts = "[variant [(''mode'', const_leaf ''a''), (''a2'', ordered_leaf 2), (''a1'', ordered_leaf 1)],
           variant_req [''b_req'']
             [(''mode'', const_leaf ''b''), (''b_opt'', leaf ''string''), (''b_req'', leaf ''string'')]]"
  have o: "oneOf two_by_two_prop = Some ?opts"
    by (simp add: two_by_two_prop_def oneOf_prop_def)
  have dv: "discriminant_values ?opts = [JStr ''a'', JStr ''b'']"
    by (simp add: discriminant_values_def constField_of_def map_filter_simps example_defs
          truthy_opt_def)
  have d: "distinct (discriminant_values ?opts)"
    unfolding dv by simp
  have d2: "distinct [JStr ''a'', JStr ''b'']" by simp
  have c: "consistent codepoint_compare" by (rule consistent_codepoint_compare)
  obtain node where
    n: "parseOneOfField codepoint_compare ''u'' two_by_two_prop [''u''] False = Inr node"
    and ids: "map (\<lambda>f. id_f (attrs f)) (subFields_of node) =
          [''u.a.a1'', ''u.a.a2'', ''u.b.b_req'', ''u.b.b_opt'']"
    and gb: "map (\<lambda>f. id_f (attrs f)) (group_of (JStr ''b'') (subFields_of node)) =
          [''u.b.b_req'', ''u.b.b_opt'']"
    and pvs: "map (\<lambda>f. parentValue (attrs f)) (subFields_of node) =
          [Some (JStr ''a''), Some (JStr ''a''), Some (JStr ''b''), Some (JStr ''b'')]"
    by (simp add: two_by_two_prop_def example_defs parser_defs sort_defs subFields_of_def
          group_of_def)
  from oneOf_groups_sorted_independently [OF n o d] obtain acc where
    acc: "oneOfOptions codepoint_compare [''u''] ?opts empty_acc = Inr acc"
    and grp: "\<forall>v. group_of v (subFields_of node) =
               sortFieldsByAirbyteRules codepoint_compare (group_of v (acc_subFields acc))"
    and srt: "consistent codepoint_compare \<longrightarrow>
              (\<forall>v. sorted_version codepoint_compare (group_of v (acc_subFields acc))
                     (group_of v (subFields_of node)))"
    and seq: "map (\<lambda>f. parentValue (attrs f)) (subFields_of node) =
          map (\<lambda>f. parentValue (attrs f)) (acc_subFields acc)"
    by blast
  have run: "map_result (\<lambda>a. map (\<lambda>f. id_f (attrs f)) (acc_subFields a))
               (oneOfOptions codepoint_compare [''u''] ?opts empty_acc)
             = Inr [''u.a.a2'', ''u.a.a1'', ''u.b.b_opt'', ''u.b.b_req'']"
    "map_result (\<lambda>a. map (\<lambda>f. id_f (attrs f)) (group_of (JStr ''b'') (acc_subFields a)))
               (oneOfOptions codepoint_compare [''u''] ?opts empty_acc)
             = Inr [''u.b.b_opt'', ''u.b.b_req'']"
    by (simp_all add: example_defs parser_defs group_of_def)
  have enc: "map (\<lambda>f. id_f (attrs f)) (acc_subFields acc) =
          [''u.a.a2'', ''u.a.a1'', ''u.b.b_opt'', ''u.b.b_req'']"
    using run(1) acc by (simp add: map_result_def)
  have encb: "map (\<lambda>f. id_f (attrs f)) (group_of (JStr ''b'') (acc_subFields acc)) =
          [''u.b.b_opt'', ''u.b.b_req'']"
    using run(2) acc by (simp add: map_result_def)
  have sv: "sorted_version codepoint_compare (group_of (JStr ''b'') (acc_subFields acc))
          (group_of (JStr ''b'') (subFields_of node))"
    using srt c by blast
  show ?thesis
    by (intro conjI exI [of _ node] exI [of _ acc])
       (rule o dv d2 c n acc enc ids grp encb gb sv seq pvs)+
qed

text \<open>
  C5 as stated fails: in \<open>repeated_discriminant_prop\<close> the first and the third
  variant have the discriminant value \<open>a\<close>. The comparator answers 0 against the
  subfield of the variant between them, the list stays in encounter order, and
  the group \<open>a\<close> (order 5 before order 1) is not sorted.
\<close>

theorem repeated_discriminant_group_unsorted:
  "map_result subFields_of
     (parseOneOfField codepoint_compare ''u'' repeated_discriminant_prop [''u''] False)
     = Inr (sortOneOfSubFields codepoint_compare repeated_discriminant_subFields)
   \<and> group_of (JStr ''a'') (sortOneOfSubFields codepoint_compare repeated_discriminant_subFields)
       \<noteq> sortFieldsByAirbyteRules codepoint_compare
            (group_of (JStr ''a'') repeated_discriminant_subFields)"
  by (simp add: repeated_discriminant_prop_def repeated_discriminant_subFields_def example_defs
        parser_defs sort_defs subFields_of_def group_of_def)

subsection \<open>C6: groups\<close>

text \<open>
  C6: \<open>allFields\<close> is the top-level field list. Without \<open>groups\<close> the output is the
  single group \<open>default\<close> holding the sorted \<open>allFields\<close>. With \<open>groups\<close> the output
  has one group per declared group, in schema order, with the declared id, holding
  the sorted list of the fields of \<open>allFields\<close> whose \<open>group\<close> tag is that id; a
  field whose tag is absent or is the id of no declared group is in no group of
  the output. Sorted, for a consistent collation: the list is in ascending order of
  the sibling rules, has the same fields, each as often, and keeps tied fields in
  their order.
\<close>

theorem group_assembly:
  assumes "s_properties spec = Some ps"
      and "parseProperties lc ps [] (case s_required spec of None \<Rightarrow> [] | Some r \<Rightarrow> r)
             = Inr allFields"
  shows "(groups spec = None \<longrightarrow>
            parseAirbyteSpec lc spec =
              Inr [\<lparr> fg_id = ''default'', fg_title = None,
                     fg_fields = sortFieldsByAirbyteRules lc allFields \<rparr>])
       \<and> (groups spec = Some gs \<longrightarrow>
            (\<exists>out. parseAirbyteSpec lc spec = Inr out \<and>
               map fg_id out = map g_id gs \<and>
               map fg_fields out =
                 map (\<lambda>g. sortFieldsByAirbyteRules lc
                             (filter (\<lambda>f. group (attrs f) = Some (g_id g)) allFields)) gs \<and>
               (\<forall>f \<in> set allFields.
                  (group (attrs f) = None \<or> (\<forall>g \<in> set gs. group (attrs f) \<noteq> Some (g_id g)))
                  \<longrightarrow> (\<forall>og \<in> set out. f \<notin> set (fg_fields og)))))
       \<and> (groups spec = None \<and> consistent lc \<longrightarrow>
            (\<exists>fs. parseAirbyteSpec lc spec =
                    Inr [\<lparr> fg_id = ''default'', fg_title = None, fg_fields = fs \<rparr>] \<and>
                  sorted_version lc allFields fs))
       \<and> (groups spec = Some gs \<and> consistent lc \<longrightarrow>
            (\<exists>out. parseAirbyteSpec lc spec = Inr out \<and>
               list_all2
                 (\<lambda>og g. fg_id og = g_id g \<and> fg_title og = g_title g \<and>
                    sorted_version lc (filter (\<lambda>f. group (attrs f) = Some (g_id g)) allFields)
                      (fg_fields og))
                 out gs))"
proof (intro conjI impI)
  assume "groups spec = None"
  with assms show "parseAirbyteSpec lc spec =
              Inr [\<lparr> fg_id = ''default'', fg_title = None,
                     fg_fields = sortFieldsByAirbyteRules lc allFields \<rparr>]"
    by (simp add: parseAirbyteSpec_def Object_entries_def)
next
  assume gs: "groups spec = Some gs"
  let ?out = "map (\<lambda>g. \<lparr> fg_id = g_id g, fg_title = g_title g,
                           fg_fields = sortFieldsByAirbyteRules lc
                             (filter (\<lambda>f. group (attrs f) = Some (g_id g)) allFields) \<rparr>) gs"
  have out: "parseAirbyteSpec lc spec = Inr ?out"
    using assms gs by (simp add: parseAirbyteSpec_def Object_entries_def)
  have ids: "map fg_id ?out = map g_id gs" by (simp add: comp_def)
  have flds: "map fg_fields ?out =
              map (\<lambda>g. sortFieldsByAirbyteRules lc
                          (filter (\<lambda>f. group (attrs f) = Some (g_id g)) allFields)) gs"
    by (simp add: comp_def)
  have none: "\<forall>f \<in> set allFields.
                  (group (attrs f) = None \<or> (\<forall>g \<in> set gs. group (attrs f) \<noteq> Some (g_id g)))
                  \<longrightarrow> (\<forall>og \<in> set ?out. f \<notin> set (fg_fields og))"
    by (auto simp: set_sortFields)
  from out ids flds none
  show "\<exists>out. parseAirbyteSpec lc spec = Inr out \<and>
               map fg_id out = map g_id gs \<and>
               map fg_fields out =
                 map (\<lambda>g. sortFieldsByAirbyteRules lc
                             (filter (\<lambda>f. group (attrs f) = Some (g_id g)) allFields)) gs \<and>
               (\<forall>f \<in> set allFields.
                  (group (attrs f) = None \<or> (\<forall>g \<in> set gs. group (attrs f) \<noteq> Some (g_id g)))
                  \<longrightarrow> (\<forall>og \<in> set out. f \<notin> set (fg_fields og)))"
    by blast
next
  assume a: "groups spec = None \<and> consistent lc"
  have out: "parseAirbyteSpec lc spec =
              Inr [\<lparr> fg_id = ''default'', fg_title = None,
                     fg_fields = sortFieldsByAirbyteRules lc allFields \<rparr>]"
    using assms a by (simp add: parseAirbyteSpec_def Object_entries_def)
  have "sorted_version lc allFields (sortFieldsByAirbyteRules lc allFields)"
    using a by (simp add: sortFields_sorted_version)
  with out show "\<exists>fs. parseAirbyteSpec lc spec =
                    Inr [\<lparr> fg_id = ''default'', fg_title = None, fg_fields = fs \<rparr>] \<and>
                  sorted_version lc allFields fs"
    by blast
next
  assume a: "groups spec = Some gs \<and> consistent lc"
  let ?out = "map (\<lambda>g. \<lparr> fg_id = g_id g, fg_title = g_title g,
                           fg_fields = sortFieldsByAirbyteRules lc
                             (filter (\<lambda>f. group (attrs f) = Some (g_id g)) allFields) \<rparr>) gs"
  have out: "parseAirbyteSpec lc spec = Inr ?out"
    using assms a by (simp add: parseAirbyteSpec_def Object_entries_def)
  have "list_all2
          (\<lambda>og g. fg_id og = g_id g \<and> fg_title og = g_title g \<and>
             sorted_version lc (filter (\<lambda>f. group (attrs f) = Some (g_id g)) allFields)
               (fg_fields og))
          ?out gs"
    using a by (simp add: list_all2_map1 list_all2_same sortFields_sorted_version)
  with out show "\<exists>out. parseAirbyteSpec lc spec = Inr out \<and>
               list_all2
                 (\<lambda>og g. fg_id og = g_id g \<and> fg_title og = g_title g \<and>
                    sorted_version lc (filter (\<lambda>f. group (attrs f) = Some (g_id g)) allFields)
                      (fg_fields og))
                 out gs"
    by blast
qed

text \<open>C6 at \<open>host_port_dbname_spec\<close> (no groups) and at \<open>two_in_group_spec\<close>: groups
  A and B are declared; \<open>x2\<close> and \<open>x1\<close> are tagged A and declared in descending
  \<open>order\<close>, \<open>y\<close> is tagged B, \<open>w\<close> is tagged with the undeclared C and \<open>z\<close> is
  untagged. Group A holds \<open>x1\<close>, \<open>x2\<close>, group B holds \<open>y\<close>; \<open>w\<close> and \<open>z\<close> are in no
  group.\<close>

theorem group_assembly_witness:
  "consistent codepoint_compare
   \<and> (\<exists>allFields fs.
      parseProperties codepoint_compare
        [(''host'', leaf ''string''), (''port'', leaf ''integer''), (''dbname'', leaf ''string'')]
        [] [''host'', ''dbname''] = Inr allFields \<and>
      map (\<lambda>f. id_f (attrs f)) allFields = [''host'', ''port'', ''dbname''] \<and>
      parseAirbyteSpec codepoint_compare host_port_dbname_spec =
        Inr [\<lparr> fg_id = ''default'', fg_title = None, fg_fields = fs \<rparr>] \<and>
      fs = sortFieldsByAirbyteRules codepoint_compare allFields \<and>
      sorted_version codepoint_compare allFields fs \<and>
      map (\<lambda>f. id_f (attrs f)) fs = [''dbname'', ''host'', ''port''])
   \<and> (\<exists>allFields out.
        parseProperties codepoint_compare
          [(''x2'', grouped_ordered_leaf ''A'' 2), (''y'', grouped_leaf ''B''),
           (''x1'', grouped_ordered_leaf ''A'' 1), (''w'', grouped_leaf ''C''),
           (''z'', leaf ''string'')] [] [] = Inr allFields \<and>
        map (\<lambda>f. id_f (attrs f)) allFields = [''x2'', ''y'', ''x1'', ''w'', ''z''] \<and>
        parseAirbyteSpec codepoint_compare two_in_group_spec = Inr out \<and>
        map fg_id out = [''A'', ''B''] \<and>
        map (\<lambda>g. map (\<lambda>f. id_f (attrs f)) (fg_fields g)) out = [[''x1'', ''x2''], [''y'']] \<and>
        list_all2
          (\<lambda>og g. fg_id og = g_id g \<and> fg_title og = g_title g \<and>
             sorted_version codepoint_compare
               (filter (\<lambda>f. group (attrs f) = Some (g_id g)) allFields) (fg_fields og))
          out [\<lparr> g_id = ''A'', g_title = None \<rparr>, \<lparr> g_id = ''B'', g_title = None \<rparr>] \<and>
        parseBasicField ''w'' (grouped_leaf ''C'') [''w''] False \<in> set allFields \<and>
        parseBasicField ''z'' (leaf ''string'') [''z''] False \<in> set allFields \<and>
        (\<forall>og \<in> set out. parseBasicField ''w'' (grouped_leaf ''C'') [''w''] False \<notin> set (fg_fields og)) \<and>
        (\<forall>og \<in> set out. parseBasicField ''z'' (leaf ''string'') [''z''] False \<notin> set (fg_fields og)))"
proof -
  let ?ps1 = "[(''host'', leaf ''string''), (''port'', leaf ''integer''), (''dbname'', leaf ''string'')]"
  let ?ps2 = "[(''x2'', grouped_ordered_leaf ''A'' 2), (''y'', grouped_leaf ''B''),
           (''x1'', grouped_ordered_leaf ''A'' 1), (''w'', grouped_leaf ''C''),
           (''z'', leaf ''string'')]"
  let ?gs = "[\<lparr> g_id = ''A'', g_title = None \<rparr>, \<lparr> g_id = ''B'', g_title = None \<rparr>]"
  let ?w = "parseBasicField ''w'' (grouped_leaf ''C'') [''w''] False"
  let ?z = "parseBasicField ''z'' (leaf ''string'') [''z''] False"
  have cc: "consistent codepoint_compare" by (rule consistent_codepoint_compare)
  have s1: "s_properties host_port_dbname_spec = Some ?ps1"
    "(case s_required host_port_dbname_spec of None \<Rightarrow> [] | Some r \<Rightarrow> r) = [''host'', ''dbname'']"
    "groups host_port_dbname_spec = None"
    by (simp_all add: host_port_dbname_spec_def)
  have s2: "s_properties two_in_group_spec = Some ?ps2"
    "(case s_required two_in_group_spec of None \<Rightarrow> [] | Some r \<Rightarrow> r) = []"
    "groups two_in_group_spec = Some ?gs"
    by (simp_all add: two_in_group_spec_def)
  let ?all1 = "[parseBasicField ''host'' (leaf ''string'') [''host''] True,
                parseBasicField ''port'' (leaf ''integer'') [''port''] False,
                parseBasicField ''dbname'' (leaf ''string'') [''dbname''] True]"
  have all1: "parseProperties codepoint_compare ?ps1 [] [''host'', ''dbname''] = Inr ?all1"
    by (simp add: example_defs push_all_def truthy_opt_def)
  let ?all2 = "[parseBasicField ''x2'' (grouped_ordered_leaf ''A'' 2) [''x2''] False,
                parseBasicField ''y'' (grouped_leaf ''B'') [''y''] False,
                parseBasicField ''x1'' (grouped_ordered_leaf ''A'' 1) [''x1''] False, ?w, ?z]"
  have all2: "parseProperties codepoint_compare ?ps2 [] [] = Inr ?all2"
    by (simp add: example_defs push_all_def truthy_opt_def)
  have p1: "parseProperties codepoint_compare ?ps1 []
               (case s_required host_port_dbname_spec of None \<Rightarrow> [] | Some r \<Rightarrow> r) = Inr ?all1"
    using all1 by (simp only: s1(2))
  have p2: "parseProperties codepoint_compare ?ps2 []
               (case s_required two_in_group_spec of None \<Rightarrow> [] | Some r \<Rightarrow> r) = Inr ?all2"
    using all2 by (simp only: s2(2))
  note t1 = group_assembly [OF s1(1) p1, of ?gs]
  note t2 = group_assembly [OF s2(1) p2, of ?gs]
  have i1: "map (\<lambda>f. id_f (attrs f)) ?all1 = [''host'', ''port'', ''dbname'']"
    by (simp add: parseBasicField_def)
  have i2: "map (\<lambda>f. id_f (attrs f)) ?all2 = [''x2'', ''y'', ''x1'', ''w'', ''z'']"
    by (simp add: parseBasicField_def)
  note a1 = t1 [THEN conjunct1, THEN mp, OF s1(3)]
  from t1 [THEN conjunct2, THEN conjunct2, THEN conjunct1, THEN mp, OF conjI [OF s1(3) cc]]
  obtain fs where fs: "parseAirbyteSpec codepoint_compare host_port_dbname_spec =
        Inr [\<lparr> fg_id = ''default'', fg_title = None, fg_fields = fs \<rparr>]"
    and sv1: "sorted_version codepoint_compare ?all1 fs"
    by (elim exE conjE)
  have fse: "fs = sortFieldsByAirbyteRules codepoint_compare ?all1"
    using a1 fs by simp
  have fsi: "map (\<lambda>f. id_f (attrs f)) fs = [''dbname'', ''host'', ''port'']"
    unfolding fse by (simp add: example_defs parseBasicField_def sort_defs)
  have g1: "\<exists>allFields fs.
      parseProperties codepoint_compare ?ps1 [] [''host'', ''dbname''] = Inr allFields \<and>
      map (\<lambda>f. id_f (attrs f)) allFields = [''host'', ''port'', ''dbname''] \<and>
      parseAirbyteSpec codepoint_compare host_port_dbname_spec =
        Inr [\<lparr> fg_id = ''default'', fg_title = None, fg_fields = fs \<rparr>] \<and>
      fs = sortFieldsByAirbyteRules codepoint_compare allFields \<and>
      sorted_version codepoint_compare allFields fs \<and>
      map (\<lambda>f. id_f (attrs f)) fs = [''dbname'', ''host'', ''port'']"
    by (intro exI [of _ ?all1] exI [of _ fs] conjI) (rule all1 i1 fs fse sv1 fsi)+
  from t2 [THEN conjunct2, THEN conjunct1, THEN mp, OF s2(3)]
  obtain out where out: "parseAirbyteSpec codepoint_compare two_in_group_spec = Inr out"
    and ids: "map fg_id out = map g_id ?gs"
    and flds: "map fg_fields out =
                 map (\<lambda>g. sortFieldsByAirbyteRules codepoint_compare
                             (filter (\<lambda>f. group (attrs f) = Some (g_id g)) ?all2)) ?gs"
    and none: "\<forall>f \<in> set ?all2.
                  (group (attrs f) = None \<or> (\<forall>g \<in> set ?gs. group (attrs f) \<noteq> Some (g_id g)))
                  \<longrightarrow> (\<forall>og \<in> set out. f \<notin> set (fg_fields og))"
    by (elim exE conjE)
  from t2 [THEN conjunct2, THEN conjunct2, THEN conjunct2, THEN mp, OF conjI [OF s2(3) cc]]
  obtain out2 where out2: "parseAirbyteSpec codepoint_compare two_in_group_spec = Inr out2"
    and sv2: "list_all2
          (\<lambda>og g. fg_id og = g_id g \<and> fg_title og = g_title g \<and>
             sorted_version codepoint_compare
               (filter (\<lambda>f. group (attrs f) = Some (g_id g)) ?all2) (fg_fields og))
          out2 ?gs"
    by (elim exE conjE)
  have oe: "out2 = out" using out out2 by simp
  have zg: "group (attrs ?z) = None" "group (attrs ?w) = Some ''C''"
    by (simp_all add: parseBasicField_def example_defs)
  have cz: "\<forall>og \<in> set out. ?z \<notin> set (fg_fields og)"
    using none zg(1) by simp
  have cw: "\<forall>og \<in> set out. ?w \<notin> set (fg_fields og)"
    using none zg(2) by simp
  have mw: "?w \<in> set ?all2" "?z \<in> set ?all2" by simp_all
  have "map (map (\<lambda>f. id_f (attrs f))) (map fg_fields out) = [[''x1'', ''x2''], [''y'']]"
    unfolding flds by (simp add: example_defs parseBasicField_def sort_defs)
  then have c3: "map (\<lambda>g. map (\<lambda>f. id_f (attrs f)) (fg_fields g)) out = [[''x1'', ''x2''], [''y'']]"
    by (simp add: comp_def)
  have ids': "map fg_id out = [''A'', ''B'']"
    using ids by simp
  have g2: "\<exists>allFields out.
        parseProperties codepoint_compare ?ps2 [] [] = Inr allFields \<and>
        map (\<lambda>f. id_f (attrs f)) allFields = [''x2'', ''y'', ''x1'', ''w'', ''z''] \<and>
        parseAirbyteSpec codepoint_compare two_in_group_spec = Inr out \<and>
        map fg_id out = [''A'', ''B''] \<and>
        map (\<lambda>g. map (\<lambda>f. id_f (attrs f)) (fg_fields g)) out = [[''x1'', ''x2''], [''y'']] \<and>
        list_all2
          (\<lambda>og g. fg_id og = g_id g \<and> fg_title og = g_title g \<and>
             sorted_version codepoint_compare
               (filter (\<lambda>f. group (attrs f) = Some (g_id g)) allFields) (fg_fields og))
          out ?gs \<and>
        ?w \<in> set allFields \<and> ?z \<in> set allFields \<and>
        (\<forall>og \<in> set out. ?w \<notin> set (fg_fields og)) \<and>
        (\<forall>og \<in> set out. ?z \<notin> set (fg_fields og))"
    by (intro exI [of _ ?all2] exI [of _ out] conjI)
       (rule all2 i2 out ids' c3 sv2 [unfolded oe] mw cw cz)+
  from cc g1 g2 show ?thesis by (intro conjI)
qed

subsection \<open>C7: array fields\<close>



text \<open>
  C7 as stated fails: in \<open>array_in_variant_prop\<close> the array \<open>streams\<close>, whose items
  are objects with the properties \<open>format\<close> and \<open>name\<close>, is a property of a oneOf
  variant. The node emitted for it has no \<open>itemType\<close> and no subfield list.
\<close>

theorem array_in_variant_is_leaf:
  "map_result
     (\<lambda>f. map (\<lambda>g. (id_f (attrs g), type_f (attrs g), itemType (attrs g), subFields g))
            (subFields_of f))
     (parseOneOfField codepoint_compare ''u'' array_in_variant_prop [''u''] False)
     = Inr [(''u.a.streams'', Some ''array'', None, None)]
   \<and> p_type (p_attrs streams_prop) = Some ''array''
   \<and> map_option (\<lambda>i. (p_type (p_attrs i), map_option (map fst) (properties i)))
        (items streams_prop) = Some (Some ''object'', Some [''format'', ''name''])"
  by (simp add: array_in_variant_prop_def streams_prop_def example_defs parser_defs sort_defs
        subFields_of_def)

subsection \<open>C8: determinism\<close>



subsection \<open>C9: nested objects are flattened\<close>



subsection \<open>C10: defaults\<close>



text \<open>
  C10 as stated fails: in \<open>array_in_variant_prop\<close> the array \<open>streams\<close>, which has
  an item schema and declares no \<open>default\<close>, is a property of a oneOf variant. The
  node emitted for it has no \<open>default\<close>.
\<close>

theorem array_in_variant_default_absent:
  "map_result
     (\<lambda>f. map (\<lambda>g. (id_f (attrs g), type_f (attrs g), default_f (attrs g))) (subFields_of f))
     (parseOneOfField codepoint_compare ''u'' array_in_variant_prop [''u''] False)
     = Inr [(''u.a.streams'', Some ''array'', None)]
   \<and> p_type (p_attrs streams_prop) = Some ''array''
   \<and> p_default (p_attrs streams_prop) = None
   \<and> items streams_prop \<noteq> None"
  by (simp add: array_in_variant_prop_def streams_prop_def example_defs parser_defs sort_defs
        subFields_of_def)


end
